theory Spec2Isabelle
  imports Complex_Main
begin

section \<open>JSON values and JavaScript objects\<close>

text \<open>
  The engine receives values produced by \<^verbatim>\<open>JSON.parse\<close>.  A parsed object is an
  ordinary JavaScript object whose own data properties are listed here in creation order;
  its keys are pairwise distinct (\<open>wf_json\<close>).  The payload of a number is never inspected
  by the program.
\<close>

datatype json =
    JNull
  | JString string
  | JNumber real
  | JBoolean bool
  | JArray "json list"
  | JObject "(string \<times> json) list"

fun wf_json :: "json \<Rightarrow> bool" where
  "wf_json (JArray vs) = list_all wf_json vs"
| "wf_json (JObject ps) = (distinct (map fst ps) \<and> list_all (\<lambda>p. wf_json (snd p)) ps)"
| "wf_json _ = True"

subsection \<open>Own properties and their enumeration order\<close>

text \<open>
  \<^verbatim>\<open>Object.keys\<close>, \<^verbatim>\<open>Object.entries\<close>, \<^verbatim>\<open>for ... of Object.keys(o)\<close> and
  \<^verbatim>\<open>JSON.stringify\<close> enumerate the own string keys of an ordinary object as
  ECMAScript's OrdinaryOwnPropertyKeys does: first the keys that are array indices
  (canonical decimal numerals below \<open>2^32 - 1\<close>) in ascending numeric order, then all other
  keys in creation order.
\<close>

definition is_digit :: "char \<Rightarrow> bool" where
  "is_digit c \<longleftrightarrow> c \<in> set ''0123456789''"

definition index_value :: "string \<Rightarrow> int" where
  "index_value s = foldl (\<lambda>n c. 10 * n + (of_char c - 48)) 0 s"

definition is_array_index :: "string \<Rightarrow> bool" where
  "is_array_index s \<longleftrightarrow>
     s \<noteq> [] \<and> list_all is_digit s \<and> (hd s \<noteq> CHR ''0'' \<or> s = ''0'') \<and>
     length s \<le> 10 \<and> index_value s < 4294967295"

definition own_entries :: "(string \<times> 'a) list \<Rightarrow> (string \<times> 'a) list" where
  "own_entries ps =
     sort_key (\<lambda>p. index_value (fst p)) (filter (\<lambda>p. is_array_index (fst p)) ps) @
     filter (\<lambda>p. \<not> is_array_index (fst p)) ps"

definition own_keys :: "(string \<times> 'a) list \<Rightarrow> string list" where
  "own_keys ps = map fst (own_entries ps)"

text \<open>
  Writing a property.  \<open>obj_put\<close> is the definition of an own data property (object
  literals, spread): an existing key keeps its place, a new key is created last.
  \<open>obj_set\<close> is the assignment \<^verbatim>\<open>o[key] = v\<close> to an object created by \<^verbatim>\<open>{}\<close>: for
  every key but one it defines the own property; \<^verbatim>\<open>__proto__\<close> is an accessor of
  \<^verbatim>\<open>Object.prototype\<close>, so the assignment runs its setter, which replaces the prototype
  of \<open>o\<close> by the assigned object and creates no own property.  (\<^verbatim>\<open>JSON.parse\<close>, by
  contrast, defines \<^verbatim>\<open>__proto__\<close> as an own property of the parsed object.)
\<close>

fun obj_put :: "(string \<times> 'a) list \<Rightarrow> string \<Rightarrow> 'a \<Rightarrow> (string \<times> 'a) list" where
  "obj_put [] k v = [(k, v)]"
| "obj_put ((k', v') # ps) k v =
     (if k' = k then (k, v) # ps else (k', v') # obj_put ps k v)"

definition obj_set :: "(string \<times> 'a) list \<Rightarrow> string \<Rightarrow> 'a \<Rightarrow> (string \<times> 'a) list" where
  "obj_set ps k v = (if k = ''__proto__'' then ps else obj_put ps k v)"

section \<open>The type model\<close>

datatype TypeKind = TString | TNumber | TBoolean | TArray | TObject | TNull

text \<open>
  \<^verbatim>\<open>interface TypeDefinition\<close>.  Every field may be absent at run time (\<open>None\<close> is
  \<^verbatim>\<open>undefined\<close>); the declared field \<^verbatim>\<open>enum\<close> is never read or written and is left out.
  \<open>properties\<close> holds the own properties of the \<^verbatim>\<open>Record\<close> object in creation order.
  The interface declares \<^verbatim>\<open>kind\<close> mandatory; a value without it reaches the merge all the
  same (see \<open>inherited_member\<close> below), and every renderer has a \<^verbatim>\<open>default\<close> branch for it.
\<close>

datatype TypeDefinition =
  TypeDefinition
    (kind: "TypeKind option")
    (properties: "(string \<times> TypeDefinition) list option")
    (items: "TypeDefinition option")
    (required: "string list option")
    (description: "string option")

abbreviation prim :: "TypeKind \<Rightarrow> TypeDefinition" where
  "prim k \<equiv> TypeDefinition (Some k) None None None None"

abbreviation array_of :: "TypeDefinition \<Rightarrow> TypeDefinition" where
  "array_of it \<equiv> TypeDefinition (Some TArray) None (Some it) None None"

abbreviation object_of :: "(string \<times> TypeDefinition) list \<Rightarrow> string list \<Rightarrow> TypeDefinition" where
  "object_of ps req \<equiv> TypeDefinition (Some TObject) (Some ps) None (Some req) None"

section \<open>Single-value inference\<close>

lemma map_of_size_less:
  "map_of ps k = Some v \<Longrightarrow> size (v::json) < Suc (size_list (size_prod (\<lambda>x. 0) size) ps)"
  by (induction ps) (auto split: if_splits)

text \<open>
  \<^verbatim>\<open>inferType(value)\<close>; its second parameter \<^verbatim>\<open>fieldName\<close> is never read.  The loop
  \<^verbatim>\<open>for (const key of keys) properties[key] = ...\<close> is a left fold over
  \<^verbatim>\<open>Object.keys(value)\<close>; \<^verbatim>\<open>value[key]\<close> reads an own property.  The last line of the
  source (\<^verbatim>\<open>return { kind: 'string' }\<close>) is what a value that is \<^verbatim>\<open>undefined\<close> infers
  to.
\<close>

function inferType :: "json \<Rightarrow> TypeDefinition" where
  "inferType JNull = prim TNull"
| "inferType (JString s) = prim TString"
| "inferType (JNumber n) = prim TNumber"
| "inferType (JBoolean b) = prim TBoolean"
| "inferType (JArray []) = array_of (prim TString)"
| "inferType (JArray (firstItem # rest)) = array_of (inferType firstItem)"
| "inferType (JObject val) =
     (let keys = own_keys val;
          properties = foldl (\<lambda>props key.
              obj_set props key
                (case map_of val key of Some v \<Rightarrow> inferType v | None \<Rightarrow> prim TString))
            [] keys
      in object_of properties keys)"
  by pat_completeness auto
termination
  by (relation "measure size") (auto simp: map_of_size_less)

section \<open>Multi-example merge\<close>

text \<open>
  Reading a property.  \<^verbatim>\<open>t.properties?.[propName]\<close> follows the prototype chain: a name
  that is not an own property of the \<^verbatim>\<open>{}\<close>-created object is looked up in
  \<^verbatim>\<open>Object.prototype\<close>, whose members are listed in \<open>object_prototype_keys\<close>.  Such a
  member is a builtin function (for \<^verbatim>\<open>__proto__\<close>, the prototype object): a truthy value
  whose \<^verbatim>\<open>kind\<close>, \<^verbatim>\<open>properties\<close>, \<^verbatim>\<open>items\<close>, \<^verbatim>\<open>required\<close> and \<^verbatim>\<open>description\<close> all read
  \<^verbatim>\<open>undefined\<close>; seen through the interface it is \<open>inherited_member\<close>.  \<open>None\<close> is
  \<^verbatim>\<open>undefined\<close>.

  The prototype slot of a \<^verbatim>\<open>properties\<close> object is not part of the model.  The program
  changes it only in \<open>inferType\<close>, for an example object with a key \<^verbatim>\<open>__proto__\<close>, and can
  observe the change only in \<open>prop_of\<close>, for the names \<^verbatim>\<open>kind\<close>, \<^verbatim>\<open>items\<close>,
  \<^verbatim>\<open>properties\<close> and \<^verbatim>\<open>required\<close> read from such an object that has no own property of
  that name.
\<close>

definition object_prototype_keys :: "string list" where
  "object_prototype_keys =
     [''constructor'', ''__defineGetter__'', ''__defineSetter__'', ''hasOwnProperty'',
      ''__lookupGetter__'', ''__lookupSetter__'', ''isPrototypeOf'',
      ''propertyIsEnumerable'', ''toString'', ''valueOf'', ''__proto__'',
      ''toLocaleString'']"

definition inherited_member :: TypeDefinition where
  "inherited_member = TypeDefinition None None None None None"

definition obj_get :: "(string \<times> TypeDefinition) list \<Rightarrow> string \<Rightarrow> TypeDefinition option" where
  "obj_get ps k =
     (case map_of ps k of
        Some v \<Rightarrow> Some v
      | None \<Rightarrow> if k \<in> set object_prototype_keys then Some inherited_member else None)"

definition prop_of :: "TypeDefinition \<Rightarrow> string \<Rightarrow> TypeDefinition option" where
  "prop_of t k = (case properties t of None \<Rightarrow> None | Some ps \<Rightarrow> obj_get ps k)"

text \<open>\<^verbatim>\<open>Set.prototype.add\<close>: a \<^verbatim>\<open>Set<string>\<close> is iterated in insertion order.\<close>

definition set_add :: "string list \<Rightarrow> string \<Rightarrow> string list" where
  "set_add s k = (if k \<in> set s then s else s @ [k])"

definition allPropertyNames :: "TypeDefinition list \<Rightarrow> string list" where
  "allPropertyNames types =
     foldl (\<lambda>names t. case properties t of
                         None \<Rightarrow> names
                       | Some ps \<Rightarrow> foldl set_add names (own_keys ps)) [] types"

text \<open>
  Termination of the merge: the candidates for a property name are, node by node, no larger
  than the nodes they are read from, and strictly smaller at a node that has the property.
\<close>

lemma set_own_entries [simp]: "set (own_entries ps) = set ps"
  by (auto simp: own_entries_def)

lemma set_own_keys [simp]: "set (own_keys ps) = fst ` set ps"
  by (simp add: own_keys_def)

lemma set_foldl_set_add [simp]: "set (foldl set_add names ks) = set names \<union> set ks"
  by (induction ks arbitrary: names) (auto simp: set_add_def)

lemma allPropertyNames_aux:
  "set (foldl (\<lambda>names t. case properties t of
                         None \<Rightarrow> names
                       | Some ps \<Rightarrow> foldl set_add names (own_keys ps)) names0 types)
   = set names0 \<union> {k. \<exists>t\<in>set types. \<exists>ps. properties t = Some ps \<and> k \<in> fst ` set ps}"
  by (induction types arbitrary: names0) (auto split: option.splits)

lemma set_allPropertyNames:
  "set (allPropertyNames types) =
     {k. \<exists>t\<in>set types. \<exists>ps. properties t = Some ps \<and> k \<in> fst ` set ps}"
  by (simp add: allPropertyNames_def allPropertyNames_aux)

lemma size_option_pos: "Suc 0 \<le> size_option f x"
  by (cases x) simp_all

lemma size_TypeDefinition_ge: "size inherited_member \<le> size (t::TypeDefinition)"
proof (cases t)
  case (TypeDefinition k p i r d)
  have "Suc 0 \<le> size_option (size_list (size_prod (\<lambda>x. 0) size)) p"
       "Suc 0 \<le> size_option size i"
    by (rule size_option_pos)+
  then show ?thesis
    using TypeDefinition by (cases k; cases r; cases d) (simp_all add: inherited_member_def)
qed

lemma map_of_size_TypeDefinition:
  "map_of ps k = Some (c::TypeDefinition) \<Longrightarrow> size c \<le> size_list (size_prod (\<lambda>x. 0) size) ps"
  by (induction ps) (auto split: if_splits)

lemma own_prop_size_less:
  "properties t = Some ps \<Longrightarrow> map_of ps k = Some c \<Longrightarrow> size c < size t"
  by (cases t) (auto dest!: map_of_size_TypeDefinition)

lemma prop_of_size_le: "prop_of t k = Some c \<Longrightarrow> size c \<le> size t"
  unfolding prop_of_def obj_get_def
  by (auto split: option.splits if_splits simp: size_TypeDefinition_ge
           dest: own_prop_size_less[THEN less_imp_le])

lemma sum_size_map_filter_le:
  "(\<And>t c. t \<in> set ts \<Longrightarrow> f t = Some c \<Longrightarrow> size c \<le> size t) \<Longrightarrow>
   sum_list (map size (List.map_filter f ts)) \<le> sum_list (map size ts)"
  by (induction ts) (auto split: option.splits intro: add_mono)

lemma sum_size_map_filter_less:
  "(\<And>t c. t \<in> set ts \<Longrightarrow> f t = Some c \<Longrightarrow> size c \<le> size t) \<Longrightarrow>
   t \<in> set ts \<Longrightarrow> f t = Some c \<Longrightarrow> size c < size t \<Longrightarrow>
   sum_list (map size (List.map_filter f ts)) < sum_list (map size ts)"
proof (induction ts)
  case Nil
  then show ?case by simp
next
  case (Cons a ts)
  have le: "sum_list (map size (List.map_filter f ts)) \<le> sum_list (map size ts)"
    using Cons.prems(1) by (intro sum_size_map_filter_le) auto
  show ?case
  proof (cases "a = t")
    case True
    with Cons.prems le show ?thesis by simp
  next
    case False
    with Cons.prems have "t \<in> set ts" by simp
    then have "sum_list (map size (List.map_filter f ts)) < sum_list (map size ts)"
      using Cons.IH Cons.prems by auto
    moreover have "\<And>c'. f a = Some c' \<Longrightarrow> size c' \<le> size a"
      using Cons.prems(1) by simp
    ultimately show ?thesis
      by (auto split: option.splits intro: add_le_less_mono)
  qed
qed

lemma merge_candidates_smaller:
  assumes "propName \<in> set (allPropertyNames types)"
  shows "sum_list (map size (List.map_filter (\<lambda>t. prop_of t propName) types))
           < sum_list (map size types)"
proof -
  from assms obtain t ps where t: "t \<in> set types" "properties t = Some ps" "propName \<in> fst ` set ps"
    by (auto simp: set_allPropertyNames)
  then obtain c where c: "map_of ps propName = Some c"
    by (metis domD dom_map_of_conv_image_fst)
  with t have "prop_of t propName = Some c" "size c < size t"
    by (auto simp: prop_of_def obj_get_def own_prop_size_less)
  with t(1) show ?thesis
    by (intro sum_size_map_filter_less[where t = t and c = c]) (auto intro: prop_of_size_le)
qed

lemma items_size_less: "items t = Some c \<Longrightarrow> size c < size t"
  by (cases t) auto

lemma items_candidates_smaller:
  "items t0 = Some c \<Longrightarrow>
   sum_list (map size (List.map_filter items (t0 # ts))) < sum_list (map size (t0 # ts))"
  by (rule sum_size_map_filter_less[where t = t0 and c = c])
     (auto dest: items_size_less)

text \<open>
  \<^verbatim>\<open>mergeObjectTypeDefinitions\<close> and \<^verbatim>\<open>mergeTypes\<close>.  The loop over
  \<^verbatim>\<open>allPropertyNames\<close> is a left fold whose state is the pair of \<^verbatim>\<open>mergedProperties\<close> and
  \<^verbatim>\<open>requiredFields\<close> (the set \<^verbatim>\<open>optionalFields\<close> is written and never read).  In both
  branches the candidates are the defined reads, in the order of \<^verbatim>\<open>types\<close>.
\<close>

function (sequential)
    mergeObjectTypeDefinitions :: "TypeDefinition list \<Rightarrow> TypeDefinition"
and mergeTypes :: "TypeDefinition list \<Rightarrow> TypeDefinition" where
  "mergeObjectTypeDefinitions types =
     (let (mergedProperties, requiredFields) =
        foldl (\<lambda>acc propName.
            let mergedProperties = fst acc;
                requiredFields = snd acc;
                appearsInCount = length (filter (\<lambda>t. prop_of t propName \<noteq> None) types) in
            if appearsInCount = length types then
              (obj_set mergedProperties propName
                 (mergeTypes (List.map_filter (\<lambda>t. prop_of t propName) types)),
               requiredFields @ [propName])
            else
              let propertyTypes = List.map_filter (\<lambda>t. prop_of t propName) types in
              if length propertyTypes > 0
              then (obj_set mergedProperties propName (mergeTypes propertyTypes), requiredFields)
              else (mergedProperties, requiredFields))
          ([], []) (allPropertyNames types)
      in object_of mergedProperties requiredFields)"
| "mergeTypes [] = prim TNull"
| "mergeTypes [t] = t"
| "mergeTypes (t0 # t1 # ts) =
     (let types = t0 # t1 # ts;
          firstKind = kind t0;
          allSameKind = list_all (\<lambda>t. kind t = firstKind) types
      in if allSameKind then
           if firstKind = Some TArray \<and> items t0 \<noteq> None then
             let itemTypes = List.map_filter items types;
                 mergedItems = mergeTypes itemTypes
             in array_of mergedItems
           else if firstKind = Some TObject then mergeObjectTypeDefinitions types
           else t0
         else prim TString)"
  by pat_completeness auto
termination
  apply (relation "measure (\<lambda>x. case x of Inl ts \<Rightarrow> 2 * sum_list (map size ts)
                                        | Inr ts \<Rightarrow> 2 * sum_list (map size ts) + 1)")
  apply simp_all
  subgoal for types a x by (drule merge_candidates_smaller) simp
  subgoal for types a x by (drule merge_candidates_smaller) simp
  subgoal for t0 t1 ts using items_candidates_smaller[of t0 _ "t1 # ts"] by auto
  done

declare mergeObjectTypeDefinitions.simps [simp del]

text \<open>\<^verbatim>\<open>inferTypeFromExamples(examples)\<close>.\<close>

definition inferTypeFromExamples :: "json list \<Rightarrow> TypeDefinition" where
  "inferTypeFromExamples examples =
     (if length examples = 0 then prim TNull
      else if length examples = 1 then inferType (examples ! 0)
      else
        let allTypes = map inferType examples;
            allAreObjects = list_all (\<lambda>t. kind t = Some TObject) allTypes
        in if allAreObjects
           then mergeObjectTypeDefinitions (filter (\<lambda>t. kind t = Some TObject) allTypes)
           else (case find (\<lambda>t. kind t \<noteq> Some TNull) allTypes of
                   Some t \<Rightarrow> t
                 | None \<Rightarrow> prim TNull))"

section \<open>Renderers\<close>

subsection \<open>Strings\<close>

definition nl :: string where
  "nl = [CHR 0x0A]"

definition dq :: string where
  "dq = [CHR 0x22]"

definition bs :: string where
  "bs = [CHR 0x5C]"

definition bq :: string where
  "bq = [CHR 0x60]"

text \<open>\<^verbatim>\<open>Array.prototype.join\<close>, \<^verbatim>\<open>String.prototype.split\<close> at a character, \<^verbatim>\<open>'  '.repeat(n)\<close>.\<close>

fun join :: "string \<Rightarrow> string list \<Rightarrow> string" where
  "join sep [] = []"
| "join sep [x] = x"
| "join sep (x # y # ys) = x @ sep @ join sep (y # ys)"

fun split :: "char \<Rightarrow> string \<Rightarrow> string list" where
  "split c [] = [[]]"
| "split c (x # xs) =
     (if x = c then [] # split c xs
      else (case split c xs of l # ls \<Rightarrow> (x # l) # ls | [] \<Rightarrow> [[x]]))"

definition repeat :: "string \<Rightarrow> nat \<Rightarrow> string" where
  "repeat s n = concat (replicate n s)"

lemma entry_size_le:
  "p \<in> set ps \<Longrightarrow> f (snd p) \<le> size_list (size_prod (\<lambda>x. 0) f) ps"
  by (induction ps) auto

lemma own_entry_size_less:
  "properties t = Some ps \<Longrightarrow> p \<in> set (own_entries ps) \<Longrightarrow> size (snd p) < size t"
  using entry_size_le[of p ps size] by (cases t) auto

subsection \<open>Schema notation\<close>

text \<open>
  The object that \<^verbatim>\<open>convertTypeToJsonSchema\<close> returns, and \<^verbatim>\<open>JSON.stringify(schema, null, 2)\<close>
  on it.  A schema holds strings, arrays and objects only.  An object is its own properties
  in creation order.
\<close>

datatype jsvalue =
    VString string
  | VArray "jsvalue list"
  | VObject "(string \<times> jsvalue) list"

function convertTypeToJsonSchema :: "TypeDefinition \<Rightarrow> (string \<times> jsvalue) list" where
  "convertTypeToJsonSchema typeDef =
     (case kind typeDef of
        Some TString \<Rightarrow> [(''type'', VString ''string'')]
      | Some TNumber \<Rightarrow> [(''type'', VString ''number'')]
      | Some TBoolean \<Rightarrow> [(''type'', VString ''boolean'')]
      | Some TNull \<Rightarrow> [(''type'', VString ''null'')]
      | Some TArray \<Rightarrow>
          [(''type'', VString ''array''),
           (''items'', VObject (case items typeDef of
                                  Some it \<Rightarrow> convertTypeToJsonSchema it
                                | None \<Rightarrow> [(''type'', VString ''string'')]))]
      | Some TObject \<Rightarrow>
          (let required = (case required typeDef of Some r \<Rightarrow> r | None \<Rightarrow> []);
               properties =
                 (case properties typeDef of
                    Some ps \<Rightarrow>
                      foldl (\<lambda>props entry.
                          obj_set props (fst entry) (VObject (convertTypeToJsonSchema (snd entry))))
                        [] (own_entries ps)
                  | None \<Rightarrow> []);
               schema = [(''type'', VString ''object'')];
               schema = (if length (own_keys properties) > 0
                         then obj_set schema ''properties'' (VObject properties) else schema);
               schema = (if length required > 0
                         then obj_set schema ''required'' (VArray (map VString required))
                         else schema)
           in schema)
      | None \<Rightarrow> [(''type'', VString ''string'')])"
  by pat_completeness auto
termination
  by (relation "measure size") (auto simp: items_size_less own_entry_size_less)

declare convertTypeToJsonSchema.simps [simp del]

text \<open>
  \<^verbatim>\<open>QuoteJSONString\<close>: the two-character escapes, \<^verbatim>\<open>\u00XX\<close> for the other control
  characters, every other character as it is.
\<close>

definition hex_digit :: "nat \<Rightarrow> char" where
  "hex_digit n = ''0123456789abcdef'' ! (n mod 16)"

definition quote_char :: "char \<Rightarrow> string" where
  "quote_char c =
     (if c = CHR 0x08 then bs @ ''b''
      else if c = CHR 0x09 then bs @ ''t''
      else if c = CHR 0x0A then bs @ ''n''
      else if c = CHR 0x0C then bs @ ''f''
      else if c = CHR 0x0D then bs @ ''r''
      else if c = CHR 0x22 then bs @ dq
      else if c = CHR 0x5C then bs @ bs
      else if (of_char c :: nat) < 32
        then bs @ ''u00'' @ [hex_digit (of_char c div 16), hex_digit (of_char c)]
      else [c])"

definition QuoteJSONString :: "string \<Rightarrow> string" where
  "QuoteJSONString s = dq @ concat (map quote_char s) @ dq"

text \<open>
  \<^verbatim>\<open>SerializeJSONProperty\<close> with the gap of two spaces; the first argument is the current
  indentation.
\<close>

function stringify :: "string \<Rightarrow> jsvalue \<Rightarrow> string" where
  "stringify indent (VString s) = QuoteJSONString s"
| "stringify indent (VArray vs) =
     (let stepback = indent;
          indent = indent @ ''  '';
          partial = map (stringify indent) vs
      in if partial = [] then ''[]''
         else ''['' @ nl @ indent @ join ('','' @ nl @ indent) partial @ nl @ stepback @ '']'')"
| "stringify indent (VObject ps) =
     (let stepback = indent;
          indent = indent @ ''  '';
          partial = map (\<lambda>entry. QuoteJSONString (fst entry) @ '':'' @ '' '' @
                                   stringify indent (snd entry)) (own_entries ps)
      in if partial = [] then ''{}''
         else ''{'' @ nl @ indent @ join ('','' @ nl @ indent) partial @ nl @ stepback @ ''}'')"
  by pat_completeness auto
termination
  by (relation "measure (\<lambda>(i, v). size v)")
     (auto simp: less_Suc_eq_le size_list_estimation' dest: entry_size_le[where f = size])

text \<open>Object spread \<^verbatim>\<open>{...src}\<close> into an object literal under construction.\<close>

definition spread :: "(string \<times> 'a) list \<Rightarrow> (string \<times> 'a) list \<Rightarrow> (string \<times> 'a) list" where
  "spread target src = foldl (\<lambda>obj entry. obj_put obj (fst entry) (snd entry)) target (own_entries src)"

definition generateJsonSchema :: "string \<Rightarrow> TypeDefinition \<Rightarrow> string" where
  "generateJsonSchema typeName typeDef =
     (let schema =
        spread
          [(''$schema'', VString ''http://json-schema.org/draft-07/schema#''),
           (''$id'', VString (''https://example.com/schemas/'' @ typeName @ ''.json'')),
           (''title'', VString typeName),
           (''description'', VString (''Auto-generated schema for '' @ typeName))]
          (convertTypeToJsonSchema typeDef)
      in stringify [] (VObject schema))"


subsection \<open>Typed interface\<close>

text \<open>
  The line that the arrow function of \<^verbatim>\<open>convertTypeToTypeScript\<close> returns for one entry of
  \<^verbatim>\<open>Object.entries(typeDef.properties)\<close>.
\<close>

definition ts_field :: "string \<Rightarrow> string \<Rightarrow> string \<Rightarrow> bool \<Rightarrow> string" where
  "ts_field indentation key fieldType isOptional =
     indentation @ ''  '' @ key @ (if isOptional then ''?'' else '''') @ '': '' @ fieldType @ '';''"

function convertTypeToTypeScript :: "TypeDefinition \<Rightarrow> nat \<Rightarrow> string" where
  "convertTypeToTypeScript typeDef indent =
     (let indentation = repeat ''  '' indent in
      case kind typeDef of
        Some TString \<Rightarrow> ''string''
      | Some TNumber \<Rightarrow> ''number''
      | Some TBoolean \<Rightarrow> ''boolean''
      | Some TNull \<Rightarrow> ''null''
      | Some TArray \<Rightarrow>
          (case items typeDef of
             Some it \<Rightarrow>
               (let itemType = convertTypeToTypeScript it indent in
                if CHR ''|'' \<in> set itemType \<or> CHR ''{'' \<in> set itemType \<or> CHR ''['' \<in> set itemType
                then ''Array<'' @ itemType @ ''>''
                else itemType @ ''[]'')
           | None \<Rightarrow> ''any[]'')
      | Some TObject \<Rightarrow>
          (case properties typeDef of
             None \<Rightarrow> ''Record<string, any>''
           | Some ps \<Rightarrow>
               if length (own_keys ps) = 0 then ''Record<string, any>''
               else
                 let requiredFields = (case required typeDef of Some r \<Rightarrow> r | None \<Rightarrow> []);
                     fields = join nl (map (\<lambda>entry.
                         let key = fst entry;
                             fieldType = convertTypeToTypeScript (snd entry) (indent + 1);
                             isOptional = key \<notin> set requiredFields
                         in ts_field indentation key fieldType isOptional) (own_entries ps))
                 in ''{'' @ nl @ fields @ nl @ indentation @ ''}'')
      | None \<Rightarrow> ''any'')"
  by pat_completeness auto
termination
  by (relation "measure (\<lambda>(t, i). size t)") (auto simp: items_size_less own_entry_size_less)

declare convertTypeToTypeScript.simps [simp del]

definition generateTypeScript :: "string \<Rightarrow> TypeDefinition \<Rightarrow> string" where
  "generateTypeScript typeName typeDef =
     ''export interface '' @ typeName @ '' '' @ convertTypeToTypeScript typeDef 0"

subsection \<open>Runtime validator\<close>

text \<open>The line that the arrow function of \<^verbatim>\<open>convertTypeToZod\<close> returns for one entry.\<close>

definition zod_field :: "string \<Rightarrow> string \<Rightarrow> string \<Rightarrow> bool \<Rightarrow> string" where
  "zod_field indentation key fieldSchema isOptional =
     (if CHR 0x0A \<in> set fieldSchema then
        let lines = split (CHR 0x0A) fieldSchema;
            firstLine = hd lines;
            restLines = join nl (map (\<lambda>l. indentation @ ''    '' @ l) (tl lines));
            baseSchema = firstLine @ nl @ restLines
        in if isOptional
           then indentation @ ''    '' @ key @ '': '' @ baseSchema @ ''.optional(),''
           else indentation @ ''    '' @ key @ '': '' @ baseSchema @ '',''
      else
        if isOptional
        then indentation @ ''    '' @ key @ '': '' @ fieldSchema @ ''.optional(),''
        else indentation @ ''    '' @ key @ '': '' @ fieldSchema @ '','')"

function convertTypeToZod :: "TypeDefinition \<Rightarrow> nat \<Rightarrow> string" where
  "convertTypeToZod typeDef indent =
     (let indentation = repeat ''  '' indent in
      case kind typeDef of
        Some TString \<Rightarrow> ''z.string()''
      | Some TNumber \<Rightarrow> ''z.number()''
      | Some TBoolean \<Rightarrow> ''z.boolean()''
      | Some TNull \<Rightarrow> ''z.null()''
      | Some TArray \<Rightarrow>
          (case items typeDef of
             Some it \<Rightarrow>
               (let itemSchema = convertTypeToZod it indent in
                if CHR 0x0A \<in> set itemSchema
                then ''z.array('' @ nl @ indentation @ ''  '' @ itemSchema @ nl @ indentation @ '')''
                else ''z.array('' @ itemSchema @ '')'')
           | None \<Rightarrow> ''z.array(z.any())'')
      | Some TObject \<Rightarrow>
          (case properties typeDef of
             None \<Rightarrow> ''z.record(z.any())''
           | Some ps \<Rightarrow>
               if length (own_keys ps) = 0 then ''z.record(z.any())''
               else
                 let requiredFields = (case required typeDef of Some r \<Rightarrow> r | None \<Rightarrow> []);
                     fields = join nl (map (\<lambda>entry.
                         let key = fst entry;
                             fieldSchema = convertTypeToZod (snd entry) (indent + 2);
                             isOptional = key \<notin> set requiredFields
                         in zod_field indentation key fieldSchema isOptional) (own_entries ps))
                 in ''z.object({'' @ nl @ fields @ nl @ indentation @ ''})'')
      | None \<Rightarrow> ''z.any()'')"
  by pat_completeness auto
termination
  by (relation "measure (\<lambda>(t, i). size t)") (auto simp: items_size_less own_entry_size_less)

declare convertTypeToZod.simps [simp del]

definition generateZod :: "string \<Rightarrow> TypeDefinition \<Rightarrow> string" where
  "generateZod typeName typeDef =
     ''export const '' @ typeName @ ''Schema = '' @ convertTypeToZod typeDef 0 @ '';'' @ nl @ nl @
     ''export type '' @ typeName @ '' = z.infer<typeof '' @ typeName @ ''Schema>;''"

subsection \<open>Documentation\<close>

function getTypeDisplayName :: "TypeDefinition \<Rightarrow> string" where
  "getTypeDisplayName typeDef =
     (case kind typeDef of
        Some TString \<Rightarrow> ''string''
      | Some TNumber \<Rightarrow> ''number''
      | Some TBoolean \<Rightarrow> ''boolean''
      | Some TNull \<Rightarrow> ''null''
      | Some TArray \<Rightarrow>
          (case items typeDef of
             Some it \<Rightarrow> getTypeDisplayName it @ ''[]''
           | None \<Rightarrow> ''any[]'')
      | Some TObject \<Rightarrow>
          (case properties typeDef of
             None \<Rightarrow> ''object''
           | Some ps \<Rightarrow>
               if length (own_keys ps) = 0 then ''object''
               else let fields = join '', '' (own_keys ps) in ''{ '' @ fields @ '' }'')
      | None \<Rightarrow> ''any'')"
  by pat_completeness auto
termination
  by (relation "measure size") (auto simp: items_size_less)

declare getTypeDisplayName.simps [simp del]

text \<open>\<^verbatim>\<open>if (typeDef.description)\<close>: the empty string is falsy.\<close>

definition getTypeDescription :: "TypeDefinition \<Rightarrow> string" where
  "getTypeDescription typeDef =
     (if description typeDef \<noteq> None \<and> description typeDef \<noteq> Some []
      then the (description typeDef)
      else case kind typeDef of
        Some TString \<Rightarrow> ''A string value''
      | Some TNumber \<Rightarrow> ''A numeric value''
      | Some TBoolean \<Rightarrow> ''A boolean value (true/false)''
      | Some TNull \<Rightarrow> ''A null value''
      | Some TArray \<Rightarrow> ''An array of items''
      | Some TObject \<Rightarrow> ''An object with properties''
      | None \<Rightarrow> [])"

function generateExample :: "TypeDefinition \<Rightarrow> nat \<Rightarrow> string" where
  "generateExample typeDef indent =
     (let indentation = repeat ''  '' indent in
      case kind typeDef of
        Some TString \<Rightarrow> dq @ ''example'' @ dq
      | Some TNumber \<Rightarrow> ''123''
      | Some TBoolean \<Rightarrow> ''true''
      | Some TNull \<Rightarrow> ''null''
      | Some TArray \<Rightarrow>
          (case items typeDef of
             Some it \<Rightarrow>
               (let itemExample = generateExample it 0 in
                ''['' @ nl @ indentation @ ''  '' @ itemExample @ nl @ indentation @ '']'')
           | None \<Rightarrow> ''[]'')
      | Some TObject \<Rightarrow>
          (case properties typeDef of
             None \<Rightarrow> ''{}''
           | Some ps \<Rightarrow>
               if length (own_keys ps) = 0 then ''{}''
               else
                 let fields = join ('','' @ nl) (map (\<lambda>entry.
                         let key = fst entry;
                             valueExample = generateExample (snd entry) (indent + 1)
                         in indentation @ ''  '' @ dq @ key @ dq @ '': '' @ valueExample)
                       (own_entries ps))
                 in ''{'' @ nl @ fields @ nl @ indentation @ ''}'')
      | None \<Rightarrow> ''null'')"
  by pat_completeness auto
termination
  by (relation "measure (\<lambda>(t, i). size t)") (auto simp: items_size_less own_entry_size_less)

declare generateExample.simps [simp del]

text \<open>One row of the table, as the template literal of \<^verbatim>\<open>generateApiDoc\<close> builds it.\<close>

definition doc_row :: "string \<Rightarrow> string \<Rightarrow> bool \<Rightarrow> string \<Rightarrow> string" where
  "doc_row key typeStr isRequired descr =
     ''| '' @ key @ '' | '' @ bq @ typeStr @ bq @ '' | '' @
     (if isRequired then ''Yes'' else ''No'') @ '' | '' @ descr @ '' |''"

text \<open>
  \<^verbatim>\<open>generateApiDoc\<close>: the array \<^verbatim>\<open>lines\<close> grows by the table header, one row for each
  property (or the single row for a value that is no object with properties) and the
  example block, and is joined by newlines.
\<close>

definition generateApiDoc :: "string \<Rightarrow> TypeDefinition \<Rightarrow> string" where
  "generateApiDoc typeName typeDef =
     (let lines =
            [''# '' @ typeName, '''', ''## Schema'', '''',
             ''| Field | Type | Required | Description |'',
             ''|-------|------|----------|-------------|''];
          lines = lines @
            (if kind typeDef = Some TObject \<and> properties typeDef \<noteq> None then
               let requiredFields = (case required typeDef of Some r \<Rightarrow> r | None \<Rightarrow> []) in
               map (\<lambda>entry.
                   let key = fst entry;
                       typeStr = getTypeDisplayName (snd entry);
                       required = key \<in> set requiredFields;
                       description = getTypeDescription (snd entry)
                   in doc_row key typeStr required description)
                 (own_entries (the (properties typeDef)))
             else
               let typeStr = getTypeDisplayName typeDef in
               [''| *value* | '' @ bq @ typeStr @ bq @ '' | Yes | '' @
                getTypeDescription typeDef @ '' |'']);
          lines = lines @
            ['''', ''## Example'', '''', bq @ bq @ bq @ ''json'', generateExample typeDef 0,
             bq @ bq @ bq]
      in join nl lines)"

section \<open>Orchestration facade\<close>

text \<open>
  \<^verbatim>\<open>generateAll(json, typeName)\<close>; the result object as its own properties.  (A caller
  that leaves \<^verbatim>\<open>typeName\<close> out gets \<^verbatim>\<open>'Schema'\<close>.)
\<close>

definition generateAll :: "json \<Rightarrow> string \<Rightarrow> (string \<times> string) list" where
  "generateAll json typeName =
     (let typeDef = inferType json in
      [(''jsonSchema'', generateJsonSchema typeName typeDef),
       (''typescript'', generateTypeScript typeName typeDef),
       (''zod'', ''import { z } from 'zod';'' @ nl @ nl @ generateZod typeName typeDef),
       (''apiDoc'', generateApiDoc typeName typeDef)])"


section \<open>Observations on the output\<close>

text \<open>
  The \<^verbatim>\<open>required\<close> list of a schema object: the strings of its \<^verbatim>\<open>required\<close> array, and
  no name when the schema has no such key.
\<close>

fun string_values :: "jsvalue list \<Rightarrow> string list" where
  "string_values [] = []"
| "string_values (VString s # vs) = s # string_values vs"
| "string_values (_ # vs) = string_values vs"

definition schema_required :: "(string \<times> jsvalue) list \<Rightarrow> string list" where
  "schema_required schema =
     (case map_of schema ''required'' of
        Some (VArray vs) \<Rightarrow> string_values vs
      | _ \<Rightarrow> [])"

text \<open>The example of the README, whose generated files are kept in the repository.\<close>

definition sample :: json where
  "sample = JObject [(''name'', JString ''John''), (''age'', JNumber 30), (''active'', JBoolean True)]"

section \<open>Notions used in the properties\<close>

subsection \<open>The object merge as a fold\<close>

text \<open>
  A node \<open>has_property\<close> a name when the name is an own property of its \<^verbatim>\<open>properties\<close>
  object; \<open>own_property\<close> reads it there, without the prototype chain.
\<close>

definition has_property :: "TypeDefinition \<Rightarrow> string \<Rightarrow> bool" where
  "has_property t p = (case properties t of None \<Rightarrow> False | Some ps \<Rightarrow> map_of ps p \<noteq> None)"

definition own_property :: "TypeDefinition \<Rightarrow> string \<Rightarrow> TypeDefinition option" where
  "own_property t p = (case properties t of None \<Rightarrow> None | Some ps \<Rightarrow> map_of ps p)"

text \<open>
  The body of the loop of \<^verbatim>\<open>mergeObjectTypeDefinitions\<close> under a name, the candidates that
  the loop hands to \<^verbatim>\<open>mergeTypes\<close> for one property name, the test
  \<^verbatim>\<open>appearsInCount === types.length\<close>, and the two components of the loop's result.
\<close>

definition merge_step ::
  "TypeDefinition list \<Rightarrow> (string \<times> TypeDefinition) list \<times> string list \<Rightarrow> string
     \<Rightarrow> (string \<times> TypeDefinition) list \<times> string list" where
  "merge_step types acc propName =
     (let mergedProperties = fst acc;
          requiredFields = snd acc;
          appearsInCount = length (filter (\<lambda>t. prop_of t propName \<noteq> None) types) in
      if appearsInCount = length types then
        (obj_set mergedProperties propName
           (mergeTypes (List.map_filter (\<lambda>t. prop_of t propName) types)),
         requiredFields @ [propName])
      else
        let propertyTypes = List.map_filter (\<lambda>t. prop_of t propName) types in
        if length propertyTypes > 0
        then (obj_set mergedProperties propName (mergeTypes propertyTypes), requiredFields)
        else (mergedProperties, requiredFields))"

abbreviation candidates :: "TypeDefinition list \<Rightarrow> string \<Rightarrow> TypeDefinition list" where
  "candidates types p \<equiv> List.map_filter (\<lambda>t. prop_of t p) types"

abbreviation in_every_node :: "TypeDefinition list \<Rightarrow> string \<Rightarrow> bool" where
  "in_every_node types p \<equiv> length (filter (\<lambda>t. prop_of t p \<noteq> None) types) = length types"

definition merged_properties :: "TypeDefinition list \<Rightarrow> (string \<times> TypeDefinition) list" where
  "merged_properties types =
     foldl (\<lambda>mp p. if candidates types p \<noteq> []
                    then obj_set mp p (mergeTypes (candidates types p))
                    else mp) [] (allPropertyNames types)"

definition required_fields :: "TypeDefinition list \<Rightarrow> string list" where
  "required_fields types = filter (in_every_node types) (allPropertyNames types)"

subsection \<open>Key order, example values, the invariant of the type model\<close>

text \<open>The enumeration order of \<open>own_keys\<close>, on the keys alone.\<close>

definition key_order :: "string list \<Rightarrow> string list" where
  "key_order ks = sort_key index_value (filter is_array_index ks) @
                  filter (\<lambda>k. \<not> is_array_index k) ks"

text \<open>An example value none of whose objects, at any depth, has the key \<^verbatim>\<open>__proto__\<close>.\<close>

fun proto_free :: "json \<Rightarrow> bool" where
  "proto_free (JArray vs) = list_all proto_free vs"
| "proto_free (JObject ps) =
     (''__proto__'' \<notin> fst ` set ps \<and> list_all (\<lambda>p. proto_free (snd p)) ps)"
| "proto_free _ = True"

lemma property_size_less:
  "properties t = Some ps \<Longrightarrow> (k, c) \<in> set ps \<Longrightarrow> size c < size t"
  using own_entry_size_less[of t ps "(k, c)"] by simp

text \<open>
  The invariant of the data model, \<^verbatim>\<open>required\<close> within the keys of \<^verbatim>\<open>properties\<close>, at a node
  of kind object and at every node nested in it.
\<close>

function required_within_properties :: "TypeDefinition \<Rightarrow> bool" where
  "required_within_properties t =
     ((if kind t = Some TObject
       then set (case required t of Some r \<Rightarrow> r | None \<Rightarrow> [])
              \<subseteq> fst ` set (case properties t of Some ps \<Rightarrow> ps | None \<Rightarrow> [])
       else True)
      \<and> (case properties t of
            Some ps \<Rightarrow> list_all (\<lambda>p. required_within_properties (snd p)) ps
          | None \<Rightarrow> True)
      \<and> (case items t of Some it \<Rightarrow> required_within_properties it | None \<Rightarrow> True))"
  by pat_completeness auto

termination
  by (relation "measure size") (auto simp: items_size_less property_size_less)

declare required_within_properties.simps [simp del]

text \<open>
  No \<^verbatim>\<open>properties\<close> object, at any depth, has an own property \<^verbatim>\<open>__proto__\<close>: every
  property name of the node can be created by an assignment.
\<close>

function settable_keys :: "TypeDefinition \<Rightarrow> bool" where
  "settable_keys t =
     ((case properties t of
         Some ps \<Rightarrow> ''__proto__'' \<notin> fst ` set ps \<and> list_all (\<lambda>p. settable_keys (snd p)) ps
       | None \<Rightarrow> True)
      \<and> (case items t of Some it \<Rightarrow> settable_keys it | None \<Rightarrow> True))"
  by pat_completeness auto

termination
  by (relation "measure size") (auto simp: items_size_less property_size_less)

declare settable_keys.simps [simp del]

definition node_ok :: "TypeDefinition \<Rightarrow> bool" where
  "node_ok t \<longleftrightarrow> required_within_properties t \<and> settable_keys t"

text \<open>
  A node of kind array has \<^verbatim>\<open>items\<close>, at the node and at every node nested in it: the part
  of the data model that \<^verbatim>\<open>mergeTypes\<close> tests by \<^verbatim>\<open>types[0].items\<close>.
\<close>

function arrays_have_items :: "TypeDefinition \<Rightarrow> bool" where
  "arrays_have_items t =
     ((if kind t = Some TArray then items t \<noteq> None else True)
      \<and> (case properties t of
            Some ps \<Rightarrow> list_all (\<lambda>p. arrays_have_items (snd p)) ps
          | None \<Rightarrow> True)
      \<and> (case items t of Some it \<Rightarrow> arrays_have_items it | None \<Rightarrow> True))"
  by pat_completeness auto

termination
  by (relation "measure size") (auto simp: items_size_less property_size_less)

declare arrays_have_items.simps [simp del]


section \<open>The model against the repository's generated files\<close>

text \<open>
  For the README's example and the type name \<^verbatim>\<open>Schema\<close> the model yields, character by
  character, the validator file \<^verbatim>\<open>schemas/Schema.zod.ts\<close> and the documentation file that
  the repository keeps.
\<close>

lemma sample_zod:
  "map_of (generateAll sample ''Schema'') ''zod'' = Some (join nl
     [''import { z } from 'zod';'',
      '''',
      ''export const SchemaSchema = z.object({'',
      ''    name: z.string(),'',
      ''    age: z.number(),'',
      ''    active: z.boolean(),'',
      ''});'',
      '''',
      ''export type Schema = z.infer<typeof SchemaSchema>;''])"
  by code_simp

lemma sample_apiDoc:
  "map_of (generateAll sample ''Schema'') ''apiDoc'' = Some (join nl
     [''# Schema'',
      '''',
      ''## Schema'',
      '''',
      ''| Field | Type | Required | Description |'',
      ''|-------|------|----------|-------------|'',
      ''| name | `string` | Yes | A string value |'',
      ''| age | `number` | Yes | A numeric value |'',
      ''| active | `boolean` | Yes | A boolean value (true/false) |'',
      '''',
      ''## Example'',
      '''',
      ''```json'',
      ''{'',
      ''  '' @ dq @ ''name'' @ dq @ '': '' @ dq @ ''example'' @ dq @ '','',
      ''  '' @ dq @ ''age'' @ dq @ '': 123,'',
      ''  '' @ dq @ ''active'' @ dq @ '': true'',
      ''}'',
      ''```''])"
  by code_simp

lemma sample_typescript:
  "map_of (generateAll sample ''Schema'') ''typescript'' = Some (join nl
     [''export interface Schema {'',
      ''  name: string;'',
      ''  age: number;'',
      ''  active: boolean;'',
      ''}''])"
  by code_simp

lemma sample_jsonSchema:
  "map_of (generateAll sample ''Schema'') ''jsonSchema'' = Some (join nl
     [''{'',
      ''  '' @ dq @ ''$schema'' @ dq @ '': '' @ dq @ ''http://json-schema.org/draft-07/schema#'' @ dq @ '','',
      ''  '' @ dq @ ''$id'' @ dq @ '': '' @ dq @ ''https://example.com/schemas/Schema.json'' @ dq @ '','',
      ''  '' @ dq @ ''title'' @ dq @ '': '' @ dq @ ''Schema'' @ dq @ '','',
      ''  '' @ dq @ ''description'' @ dq @ '': '' @ dq @ ''Auto-generated schema for Schema'' @ dq @ '','',
      ''  '' @ dq @ ''type'' @ dq @ '': '' @ dq @ ''object'' @ dq @ '','',
      ''  '' @ dq @ ''properties'' @ dq @ '': {'',
      ''    '' @ dq @ ''name'' @ dq @ '': {'',
      ''      '' @ dq @ ''type'' @ dq @ '': '' @ dq @ ''string'' @ dq,
      ''    },'',
      ''    '' @ dq @ ''age'' @ dq @ '': {'',
      ''      '' @ dq @ ''type'' @ dq @ '': '' @ dq @ ''number'' @ dq,
      ''    },'',
      ''    '' @ dq @ ''active'' @ dq @ '': {'',
      ''      '' @ dq @ ''type'' @ dq @ '': '' @ dq @ ''boolean'' @ dq,
      ''    }'',
      ''  },'',
      ''  '' @ dq @ ''required'' @ dq @ '': ['',
      ''    '' @ dq @ ''name'' @ dq @ '','',
      ''    '' @ dq @ ''age'' @ dq @ '','',
      ''    '' @ dq @ ''active'' @ dq,
      ''  ]'',
      ''}''])"
  by code_simp

section \<open>Single-value inference\<close>

lemma inferred_array_has_items: "kind (inferType v) = Some TArray \<Longrightarrow> items (inferType v) \<noteq> None"
  by (cases v rule: inferType.cases) (simp_all add: Let_def)

text \<open>
  C5.  An empty array infers to an array of strings; a non-empty array infers to an array
  of what its first element infers to, whatever follows the first element.
\<close>

theorem C5_array_first_element_only:
  "inferType (JArray []) = array_of (prim TString)
   \<and> inferType (JArray (x # xs)) = array_of (inferType x)
   \<and> inferType (JArray (x # xs)) = inferType (JArray (x # ys))"
  by simp

section \<open>Inference from several examples\<close>

lemma find_first:
  "find P xs = Some x \<Longrightarrow>
   \<exists>i<length xs. x = xs ! i \<and> P (xs ! i) \<and> (\<forall>j<i. \<not> P (xs ! j))"
  by (auto simp: find_Some_iff)

text \<open>
  C6.  No example gives the null node, one example gives its single-value inference.  For
  two or more examples that do not all infer to objects, the result is the inference of the
  first example (in input order) whose kind is not null, and the null node when every
  example infers to null.
\<close>

theorem C6_examples_dispatch:
  "inferTypeFromExamples [] = prim TNull
   \<and> inferTypeFromExamples [v] = inferType v
   \<and> (2 \<le> length examples \<and> \<not> list_all (\<lambda>e. kind (inferType e) = Some TObject) examples \<longrightarrow>
        (\<exists>i<length examples.
            inferTypeFromExamples examples = inferType (examples ! i)
            \<and> kind (inferType (examples ! i)) \<noteq> Some TNull
            \<and> (\<forall>j<i. kind (inferType (examples ! j)) = Some TNull))
        \<or> (list_all (\<lambda>e. kind (inferType e) = Some TNull) examples
            \<and> inferTypeFromExamples examples = prim TNull))"
proof (intro conjI impI)
  show "inferTypeFromExamples [] = prim TNull"
    by (simp add: inferTypeFromExamples_def)
  show "inferTypeFromExamples [v] = inferType v"
    by (simp add: inferTypeFromExamples_def)
next
  assume a: "2 \<le> length examples \<and> \<not> list_all (\<lambda>e. kind (inferType e) = Some TObject) examples"
  let ?ts = "map inferType examples"
  let ?P = "\<lambda>t. kind t \<noteq> Some TNull"
  from a have no: "\<not> list_all (\<lambda>t. kind t = Some TObject) ?ts"
    by (simp add: list_all_iff)
  from a have len: "length examples \<noteq> 0" "length examples \<noteq> 1" by auto
  have res: "inferTypeFromExamples examples =
               (case find ?P ?ts of Some t \<Rightarrow> t | None \<Rightarrow> prim TNull)"
    using no len by (simp add: inferTypeFromExamples_def Let_def)
  show "(\<exists>i<length examples.
            inferTypeFromExamples examples = inferType (examples ! i)
            \<and> kind (inferType (examples ! i)) \<noteq> Some TNull
            \<and> (\<forall>j<i. kind (inferType (examples ! j)) = Some TNull))
        \<or> (list_all (\<lambda>e. kind (inferType e) = Some TNull) examples
            \<and> inferTypeFromExamples examples = prim TNull)"
  proof (cases "find ?P ?ts")
    case None
    then have "list_all (\<lambda>e. kind (inferType e) = Some TNull) examples"
      by (auto simp: find_None_iff list_all_iff)
    with None res show ?thesis by simp
  next
    case (Some t)
    from find_first[OF Some] obtain i where
      "i < length examples" "t = ?ts ! i" "?P (?ts ! i)" "\<forall>j<i. \<not> ?P (?ts ! j)"
      by auto
    with Some res show ?thesis
      by (intro disjI1 exI[of _ i]) auto
  qed
qed

theorem C6_examples_dispatch_witness:
  "2 \<le> length [JNull, JNumber 1, JString ''x'']
   \<and> \<not> list_all (\<lambda>e. kind (inferType e) = Some TObject) [JNull, JNumber 1, JString ''x'']
   \<and> inferTypeFromExamples [JNull, JNumber 1, JString ''x''] = prim TNumber"
proof -
  have h: "2 \<le> length [JNull, JNumber 1, JString ''x'']
           \<and> \<not> list_all (\<lambda>e. kind (inferType e) = Some TObject) [JNull, JNumber 1, JString ''x'']"
    by simp
  from C6_examples_dispatch[of _ "[JNull, JNumber 1, JString ''x'']"] h
  have "(\<exists>i<length [JNull, JNumber 1, JString ''x''].
            inferTypeFromExamples [JNull, JNumber 1, JString ''x'']
              = inferType ([JNull, JNumber 1, JString ''x''] ! i)
            \<and> kind (inferType ([JNull, JNumber 1, JString ''x''] ! i)) \<noteq> Some TNull
            \<and> (\<forall>j<i. kind (inferType ([JNull, JNumber 1, JString ''x''] ! j)) = Some TNull))
        \<or> (list_all (\<lambda>e. kind (inferType e) = Some TNull) [JNull, JNumber 1, JString ''x'']
            \<and> inferTypeFromExamples [JNull, JNumber 1, JString ''x''] = prim TNull)"
    by blast
  then have "inferTypeFromExamples [JNull, JNumber 1, JString ''x''] = prim TNumber"
    by (auto simp: less_Suc_eq nth_Cons' split: if_splits)
  with h show ?thesis by simp
qed

section \<open>The type-merge algorithm\<close>

lemma mergeTypes_mixed:
  assumes "2 \<le> length types" "\<not> (\<forall>t\<in>set types. kind t = kind (hd types))"
  shows "mergeTypes types = prim TString"
proof -
  from assms(1) obtain t0 t1 ts where ty: "types = t0 # t1 # ts"
    by (cases types; cases "tl types") auto
  with assms(2) have "list_all (\<lambda>t. kind t = kind t0) (t0 # t1 # ts) = False"
    by (simp add: list_all_iff)
  then show ?thesis
    by (simp only: ty mergeTypes.simps Let_def if_False)
qed

lemma mergeTypes_same_primitive:
  assumes "2 \<le> length types" "\<forall>t\<in>set types. kind t = Some k" "k \<noteq> TArray" "k \<noteq> TObject"
  shows "mergeTypes types = hd types"
proof -
  from assms(1) obtain t0 t1 ts where ty: "types = t0 # t1 # ts"
    by (cases types; cases "tl types") auto
  with assms(2) have "list_all (\<lambda>t. kind t = kind t0) (t0 # t1 # ts)" "kind t0 = Some k"
    by (simp_all add: list_all_iff)
  with ty assms(3,4) show ?thesis by (simp add: Let_def)
qed

lemma kind_conflict_example:
  "inferTypeFromExamples [JObject [(''a'', JNumber 1)], JObject [(''a'', JString ''x'')]]
     = object_of [(''a'', prim TString)] [''a'']"
  by code_simp

text \<open>
  C3.  Two or more candidates whose kinds are not all equal merge to the string node; two
  or more candidates of one and the same primitive kind (string, number, boolean, null)
  merge to the first candidate.  The examples \<^verbatim>\<open>{a:1}\<close> and \<^verbatim>\<open>{a:"x"}\<close> give property
  \<^verbatim>\<open>a\<close> the kind string.
\<close>

theorem C3_kind_conflict_fallback:
  "(2 \<le> length types \<and> \<not> (\<forall>t\<in>set types. kind t = kind (hd types))
      \<longrightarrow> mergeTypes types = prim TString)
   \<and> (2 \<le> length types \<and> (\<forall>t\<in>set types. kind t = Some k) \<and> k \<notin> {TArray, TObject}
      \<longrightarrow> mergeTypes types = hd types)
   \<and> inferTypeFromExamples [JObject [(''a'', JNumber 1)], JObject [(''a'', JString ''x'')]]
       = object_of [(''a'', prim TString)] [''a'']"
  using mergeTypes_mixed[of types] mergeTypes_same_primitive[of types k] kind_conflict_example
  by auto

theorem C3_kind_conflict_fallback_witness:
  "2 \<le> length [prim TNumber, prim TString, prim TNumber]
   \<and> \<not> list_all (\<lambda>t. kind t = kind (hd [prim TNumber, prim TString, prim TNumber]))
          [prim TNumber, prim TString, prim TNumber]
   \<and> mergeTypes [prim TNumber, prim TString, prim TNumber] = prim TString
   \<and> 2 \<le> length [prim TBoolean, prim TBoolean]
   \<and> list_all (\<lambda>t. kind t = Some TBoolean) [prim TBoolean, prim TBoolean]
   \<and> TBoolean \<notin> {TArray, TObject}
   \<and> mergeTypes [prim TBoolean, prim TBoolean] = hd [prim TBoolean, prim TBoolean]"
  using C3_kind_conflict_fallback[of "[prim TNumber, prim TString, prim TNumber]" TNumber]
        C3_kind_conflict_fallback[of "[prim TBoolean, prim TBoolean]" TBoolean]
  by simp

lemma mergeTypes_array_first_items:
  assumes "2 \<le> length types" "\<forall>t\<in>set types. kind t = Some TArray" "items (hd types) \<noteq> None"
  shows "mergeTypes types = array_of (mergeTypes (List.map_filter items types))"
proof -
  from assms(1) obtain t0 t1 ts where ty: "types = t0 # t1 # ts"
    by (cases types; cases "tl types") auto
  with assms(2) have "list_all (\<lambda>t. kind t = kind t0) (t0 # t1 # ts)" "kind t0 = Some TArray"
    by (simp_all add: list_all_iff)
  with ty assms(3) show ?thesis by (simp add: Let_def)
qed

section \<open>The schema-notation renderer\<close>

lemma string_values_map_VString [simp]: "string_values (map VString r) = r"
  by (induction r) auto

lemma convertTypeToJsonSchema_object:
  assumes "kind t = Some TObject"
  shows "convertTypeToJsonSchema t =
     (let required = (case required t of Some r \<Rightarrow> r | None \<Rightarrow> []);
          properties =
            (case properties t of
               Some ps \<Rightarrow>
                 foldl (\<lambda>props entry.
                     obj_set props (fst entry) (VObject (convertTypeToJsonSchema (snd entry))))
                   [] (own_entries ps)
             | None \<Rightarrow> [])
      in [(''type'', VString ''object'')] @
         (if own_keys properties \<noteq> [] then [(''properties'', VObject properties)] else []) @
         (if required \<noteq> [] then [(''required'', VArray (map VString required))] else []))"
  using assms
  by (subst convertTypeToJsonSchema.simps) (simp add: Let_def obj_set_def)

lemma schema_required_object:
  assumes "kind t = Some TObject"
  shows "schema_required (convertTypeToJsonSchema t) =
           (case required t of Some r \<Rightarrow> r | None \<Rightarrow> [])"
  by (simp add: convertTypeToJsonSchema_object[OF assms] schema_required_def Let_def
        split: option.splits)

text \<open>
  C10.  The schema of an object node with a non-empty \<^verbatim>\<open>required\<close> list carries that list as
  it is, whether or not its names are properties of the node; when the node has no
  properties, the schema has the keys \<^verbatim>\<open>type\<close> and \<^verbatim>\<open>required\<close> and no key
  \<^verbatim>\<open>properties\<close>.
\<close>

theorem C10_schema_required_verbatim:
  assumes "kind t = Some TObject" "required t = Some r" "r \<noteq> []"
  shows "map_of (convertTypeToJsonSchema t) ''required'' = Some (VArray (map VString r))
       \<and> (properties t = None \<or> properties t = Some [] \<longrightarrow>
            convertTypeToJsonSchema t =
              [(''type'', VString ''object''), (''required'', VArray (map VString r))])"
  using assms
  by (auto simp: convertTypeToJsonSchema_object Let_def own_keys_def own_entries_def)

theorem C10_schema_required_verbatim_witness:
  "kind (TypeDefinition (Some TObject) (Some []) None (Some [''ghost'']) None) = Some TObject
   \<and> required (TypeDefinition (Some TObject) (Some []) None (Some [''ghost'']) None)
       = Some [''ghost'']
   \<and> [''ghost''] \<noteq> []
   \<and> ''ghost'' \<notin> fst ` set (the (properties
         (TypeDefinition (Some TObject) (Some []) None (Some [''ghost'']) None)))
   \<and> convertTypeToJsonSchema (TypeDefinition (Some TObject) (Some []) None (Some [''ghost'']) None)
       = [(''type'', VString ''object''), (''required'', VArray [VString ''ghost''])]"
  using C10_schema_required_verbatim[of
          "TypeDefinition (Some TObject) (Some []) None (Some [''ghost'']) None" "[''ghost'']"]
  by simp

section \<open>Agreement of the renderers\<close>

lemma is_array_index_schema_keys [simp]:
  "\<not> is_array_index ''type''" "\<not> is_array_index ''properties''" "\<not> is_array_index ''required''"
  by (simp_all add: is_array_index_def is_digit_def)

lemma spread_schema_header:
  "spread [(''$schema'', a), (''$id'', b), (''title'', c), (''description'', d)]
     ([(''type'', x)] @ (if P then [(''properties'', y)] else []) @
      (if Q then [(''required'', z)] else []))
   = [(''$schema'', a), (''$id'', b), (''title'', c), (''description'', d)] @
     ([(''type'', x)] @ (if P then [(''properties'', y)] else []) @
      (if Q then [(''required'', z)] else []))"
  by (cases P; cases Q) (simp_all add: spread_def own_entries_def)

lemma generateJsonSchema_object:
  assumes "kind t = Some TObject"
  shows "generateJsonSchema n t =
           stringify [] (VObject
             ([(''$schema'', VString ''http://json-schema.org/draft-07/schema#''),
               (''$id'', VString (''https://example.com/schemas/'' @ n @ ''.json'')),
               (''title'', VString n),
               (''description'', VString (''Auto-generated schema for '' @ n))] @
              convertTypeToJsonSchema t))"
  by (simp only: generateJsonSchema_def Let_def convertTypeToJsonSchema_object[OF assms]
        spread_schema_header)


lemma schema_required_header:
  "schema_required
     ([(''$schema'', a), (''$id'', b), (''title'', c), (''description'', d)] @ schema)
   = schema_required schema"
  by (simp add: schema_required_def)

lemma ts_field_flag: "ts_field ind k ft True \<noteq> ts_field ind k ft False"
  by (simp add: ts_field_def)

lemma zod_field_flag: "zod_field ind k fs True \<noteq> zod_field ind k fs False"
  by (simp add: zod_field_def Let_def)

lemma doc_row_flag: "doc_row k ty True d \<noteq> doc_row k ty False d"
  by (simp add: doc_row_def)

lemma zod_field_mark:
  "\<exists>body. zod_field ind k fs True = body @ ''.optional(),'' \<and> zod_field ind k fs False = body @ '',''"
  by (simp add: zod_field_def Let_def)

text \<open>
  C8.  For an object node with properties, the four generated texts classify each
  top-level property alike.  The schema-notation text is the serialisation of a schema
  object whose \<^verbatim>\<open>required\<close> list is \<open>R\<close>; the typed-interface text, the runtime-validator
  text and the documentation text are exactly what results from marking each top-level
  property as required when its name is in \<open>R\<close> and as optional otherwise.  The mark is
  the suffix \<^verbatim>\<open>?\<close> of the field name, the suffix \<^verbatim>\<open>.optional()\<close> of the validator, and
  \<^verbatim>\<open>No\<close> against \<^verbatim>\<open>Yes\<close> in the third column of the table row.  The data-model invariant
  on \<^verbatim>\<open>required\<close> is not needed for this.
\<close>

theorem C8_renderers_agree_on_required:
  assumes "kind t = Some TObject" "properties t = Some ps"
  shows
    "generateJsonSchema n t =
        stringify [] (VObject
          ([(''$schema'', VString ''http://json-schema.org/draft-07/schema#''),
            (''$id'', VString (''https://example.com/schemas/'' @ n @ ''.json'')),
            (''title'', VString n),
            (''description'', VString (''Auto-generated schema for '' @ n))] @
           convertTypeToJsonSchema t))
     \<and> schema_required
          ([(''$schema'', VString ''http://json-schema.org/draft-07/schema#''),
            (''$id'', VString (''https://example.com/schemas/'' @ n @ ''.json'')),
            (''title'', VString n),
            (''description'', VString (''Auto-generated schema for '' @ n))] @
           convertTypeToJsonSchema t)
         = schema_required (convertTypeToJsonSchema t)
     \<and> (own_keys ps \<noteq> [] \<longrightarrow>
        generateTypeScript n t =
          ''export interface '' @ n @ '' {'' @ nl @
          join nl (map (\<lambda>e. ts_field [] (fst e) (convertTypeToTypeScript (snd e) 1)
                               (fst e \<notin> set (schema_required (convertTypeToJsonSchema t))))
                     (own_entries ps)) @
          nl @ ''}'')
     \<and> (own_keys ps \<noteq> [] \<longrightarrow>
        generateZod n t =
          ''export const '' @ n @ ''Schema = z.object({'' @ nl @
          join nl (map (\<lambda>e. zod_field [] (fst e) (convertTypeToZod (snd e) 2)
                               (fst e \<notin> set (schema_required (convertTypeToJsonSchema t))))
                     (own_entries ps)) @
          nl @ ''});'' @ nl @ nl @
          ''export type '' @ n @ '' = z.infer<typeof '' @ n @ ''Schema>;'')
     \<and> generateApiDoc n t =
          join nl
            ([''# '' @ n, '''', ''## Schema'', '''',
              ''| Field | Type | Required | Description |'',
              ''|-------|------|----------|-------------|''] @
             map (\<lambda>e. doc_row (fst e) (getTypeDisplayName (snd e))
                         (fst e \<in> set (schema_required (convertTypeToJsonSchema t)))
                         (getTypeDescription (snd e)))
               (own_entries ps) @
             ['''', ''## Example'', '''', bq @ bq @ bq @ ''json'', generateExample t 0,
              bq @ bq @ bq])
     \<and> (own_keys ps \<noteq> [] \<longrightarrow>
        convertTypeToTypeScript t i =
          ''{'' @ nl @
          join nl (map (\<lambda>e. ts_field (repeat ''  '' i) (fst e)
                               (convertTypeToTypeScript (snd e) (i + 1))
                               (fst e \<notin> set (schema_required (convertTypeToJsonSchema t))))
                     (own_entries ps)) @
          nl @ repeat ''  '' i @ ''}'')
     \<and> (own_keys ps \<noteq> [] \<longrightarrow>
        convertTypeToZod t i =
          ''z.object({'' @ nl @
          join nl (map (\<lambda>e. zod_field (repeat ''  '' i) (fst e)
                               (convertTypeToZod (snd e) (i + 2))
                               (fst e \<notin> set (schema_required (convertTypeToJsonSchema t))))
                     (own_entries ps)) @
          nl @ repeat ''  '' i @ ''})'')
     \<and> ts_field ind k ft True = ind @ ''  '' @ k @ ''?: '' @ ft @ '';''
     \<and> ts_field ind k ft False = ind @ ''  '' @ k @ '': '' @ ft @ '';''
     \<and> (\<exists>body. zod_field ind k fs True = body @ ''.optional(),''
               \<and> zod_field ind k fs False = body @ '','')
     \<and> doc_row k ty True d = ''| '' @ k @ '' | '' @ bq @ ty @ bq @ '' | Yes | '' @ d @ '' |''
     \<and> doc_row k ty False d = ''| '' @ k @ '' | '' @ bq @ ty @ bq @ '' | No | '' @ d @ '' |''
     \<and> ts_field ind k ft True \<noteq> ts_field ind k ft False
     \<and> zod_field ind k fs True \<noteq> zod_field ind k fs False
     \<and> doc_row k ty True d \<noteq> doc_row k ty False d"
proof -
  note R = schema_required_object[OF assms(1)]
  have ts: "own_keys ps \<noteq> [] \<longrightarrow>
        convertTypeToTypeScript t i =
          ''{'' @ nl @
          join nl (map (\<lambda>e. ts_field (repeat ''  '' i) (fst e)
                               (convertTypeToTypeScript (snd e) (i + 1))
                               (fst e \<notin> set (schema_required (convertTypeToJsonSchema t))))
                     (own_entries ps)) @
          nl @ repeat ''  '' i @ ''}''" for i
    using assms by (subst convertTypeToTypeScript.simps) (simp add: Let_def R)
  have zod: "own_keys ps \<noteq> [] \<longrightarrow>
        convertTypeToZod t i =
          ''z.object({'' @ nl @
          join nl (map (\<lambda>e. zod_field (repeat ''  '' i) (fst e)
                               (convertTypeToZod (snd e) (i + 2))
                               (fst e \<notin> set (schema_required (convertTypeToJsonSchema t))))
                     (own_entries ps)) @
          nl @ repeat ''  '' i @ ''})''" for i
    using assms by (subst convertTypeToZod.simps) (simp add: Let_def R)
  have gts: "own_keys ps \<noteq> [] \<longrightarrow>
        generateTypeScript n t =
          ''export interface '' @ n @ '' {'' @ nl @
          join nl (map (\<lambda>e. ts_field [] (fst e) (convertTypeToTypeScript (snd e) 1)
                               (fst e \<notin> set (schema_required (convertTypeToJsonSchema t))))
                     (own_entries ps)) @
          nl @ ''}''"
    using assms
    by (simp add: generateTypeScript_def, subst convertTypeToTypeScript.simps)
       (simp add: Let_def R repeat_def)
  have gzod: "own_keys ps \<noteq> [] \<longrightarrow>
        generateZod n t =
          ''export const '' @ n @ ''Schema = z.object({'' @ nl @
          join nl (map (\<lambda>e. zod_field [] (fst e) (convertTypeToZod (snd e) 2)
                               (fst e \<notin> set (schema_required (convertTypeToJsonSchema t))))
                     (own_entries ps)) @
          nl @ ''});'' @ nl @ nl @
          ''export type '' @ n @ '' = z.infer<typeof '' @ n @ ''Schema>;''"
    using assms
    by (simp add: generateZod_def, subst convertTypeToZod.simps)
       (simp add: Let_def R repeat_def numeral_2_eq_2)
  have doc: "generateApiDoc n t =
          join nl
            ([''# '' @ n, '''', ''## Schema'', '''',
              ''| Field | Type | Required | Description |'',
              ''|-------|------|----------|-------------|''] @
             map (\<lambda>e. doc_row (fst e) (getTypeDisplayName (snd e))
                         (fst e \<in> set (schema_required (convertTypeToJsonSchema t)))
                         (getTypeDescription (snd e)))
               (own_entries ps) @
             ['''', ''## Example'', '''', bq @ bq @ bq @ ''json'', generateExample t 0,
              bq @ bq @ bq])"
    unfolding generateApiDoc_def Let_def R using assms by simp
  have marks:
    "ts_field ind k ft True = ind @ ''  '' @ k @ ''?: '' @ ft @ '';''"
    "ts_field ind k ft False = ind @ ''  '' @ k @ '': '' @ ft @ '';''"
    "doc_row k ty True d = ''| '' @ k @ '' | '' @ bq @ ty @ bq @ '' | Yes | '' @ d @ '' |''"
    "doc_row k ty False d = ''| '' @ k @ '' | '' @ bq @ ty @ bq @ '' | No | '' @ d @ '' |''"
    by (simp_all add: ts_field_def doc_row_def)
  show ?thesis
    apply (intro conjI)
    apply (rule generateJsonSchema_object[OF assms(1)])
    apply (rule schema_required_header)
    apply (rule gts)
    apply (rule gzod)
    apply (rule doc)
    apply (rule ts)
    apply (rule zod)
    apply (rule marks(1))
    apply (rule marks(2))
    apply (rule zod_field_mark)
    apply (rule marks(3))
    apply (rule marks(4))
    apply (rule ts_field_flag)
    apply (rule zod_field_flag)
    apply (rule doc_row_flag)
    done
qed

lemma partition_schema_required:
  "schema_required (convertTypeToJsonSchema
      (object_of [(''a'', prim TNumber), (''b'', prim TNumber)] [''a''])) = [''a'']"
  by code_simp

lemma partition_typescript:
  "generateTypeScript ''T'' (object_of [(''a'', prim TNumber), (''b'', prim TNumber)] [''a''])
     = join nl [''export interface T {'', ''  a: number;'', ''  b?: number;'', ''}'']"
  by code_simp

lemma partition_zod:
  "generateZod ''T'' (object_of [(''a'', prim TNumber), (''b'', prim TNumber)] [''a''])
     = join nl [''export const TSchema = z.object({'', ''    a: z.number(),'',
                ''    b: z.number().optional(),'', ''});'', '''',
                ''export type T = z.infer<typeof TSchema>;'']"
  by code_simp

lemma partition_apiDoc:
  "generateApiDoc ''T'' (object_of [(''a'', prim TNumber), (''b'', prim TNumber)] [''a''])
     = join nl [''# T'', '''', ''## Schema'', '''',
                ''| Field | Type | Required | Description |'',
                ''|-------|------|----------|-------------|'',
                ''| a | `number` | Yes | A numeric value |'',
                ''| b | `number` | No | A numeric value |'',
                '''', ''## Example'', '''', ''```json'', ''{'',
                ''  '' @ dq @ ''a'' @ dq @ '': 123,'',
                ''  '' @ dq @ ''b'' @ dq @ '': 123'',
                ''}'', ''```'']"
  by code_simp

theorem C8_renderers_agree_on_required_witness:
  "kind (object_of [(''a'', prim TNumber), (''b'', prim TNumber)] [''a'']) = Some TObject
   \<and> properties (object_of [(''a'', prim TNumber), (''b'', prim TNumber)] [''a''])
       = Some [(''a'', prim TNumber), (''b'', prim TNumber)]
   \<and> own_keys [(''a'', prim TNumber), (''b'', prim TNumber)] \<noteq> []
   \<and> schema_required (convertTypeToJsonSchema
        (object_of [(''a'', prim TNumber), (''b'', prim TNumber)] [''a''])) = [''a'']
   \<and> generateTypeScript ''T'' (object_of [(''a'', prim TNumber), (''b'', prim TNumber)] [''a''])
       = ''export interface '' @ ''T'' @ '' {'' @ nl @
         join nl (map (\<lambda>e. ts_field [] (fst e) (convertTypeToTypeScript (snd e) 1)
                              (fst e \<notin> set [''a'']))
                    (own_entries [(''a'', prim TNumber), (''b'', prim TNumber)])) @
         nl @ ''}''
   \<and> generateZod ''T'' (object_of [(''a'', prim TNumber), (''b'', prim TNumber)] [''a''])
       = ''export const '' @ ''T'' @ ''Schema = z.object({'' @ nl @
         join nl (map (\<lambda>e. zod_field [] (fst e) (convertTypeToZod (snd e) 2)
                              (fst e \<notin> set [''a'']))
                    (own_entries [(''a'', prim TNumber), (''b'', prim TNumber)])) @
         nl @ ''});'' @ nl @ nl @
         ''export type '' @ ''T'' @ '' = z.infer<typeof '' @ ''T'' @ ''Schema>;''
   \<and> generateApiDoc ''T'' (object_of [(''a'', prim TNumber), (''b'', prim TNumber)] [''a''])
       = join nl
           ([''# '' @ ''T'', '''', ''## Schema'', '''',
             ''| Field | Type | Required | Description |'',
             ''|-------|------|----------|-------------|''] @
            map (\<lambda>e. doc_row (fst e) (getTypeDisplayName (snd e)) (fst e \<in> set [''a''])
                        (getTypeDescription (snd e)))
              (own_entries [(''a'', prim TNumber), (''b'', prim TNumber)]) @
            ['''', ''## Example'', '''', bq @ bq @ bq @ ''json'',
             generateExample (object_of [(''a'', prim TNumber), (''b'', prim TNumber)] [''a'']) 0,
             bq @ bq @ bq])"
proof -
  have k: "kind (object_of [(''a'', prim TNumber), (''b'', prim TNumber)] [''a'']) = Some TObject"
    and p: "properties (object_of [(''a'', prim TNumber), (''b'', prim TNumber)] [''a''])
              = Some [(''a'', prim TNumber), (''b'', prim TNumber)]"
    by simp_all
  have ne: "own_keys [(''a'', prim TNumber), (''b'', prim TNumber)] \<noteq> []"
    by code_simp
  note R = partition_schema_required
  note th = C8_renderers_agree_on_required[OF k p, where n = "''T''", unfolded R]
  note gts = th[THEN conjunct2, THEN conjunct2, THEN conjunct1, THEN mp, OF ne]
  note gzod = th[THEN conjunct2, THEN conjunct2, THEN conjunct2, THEN conjunct1, THEN mp, OF ne]
  note doc = th[THEN conjunct2, THEN conjunct2, THEN conjunct2, THEN conjunct2, THEN conjunct1]
  show ?thesis
    apply (intro conjI)
    apply (rule k)
    apply (rule p)
    apply (rule ne)
    apply (rule R)
    apply (rule gts)
    apply (rule gzod)
    apply (rule doc)
    done
qed

section \<open>The orchestration facade\<close>

text \<open>
  C1, as claimed, fails: handed a list of two examples, \<^verbatim>\<open>generateAll\<close> renders the type of
  a JSON array, not the merge of the examples.
\<close>

theorem C1_generateAll_counterexample:
  "map_of (generateAll (JArray [JObject [(''a'', JNumber 1)], JObject [(''b'', JNumber 2)]]) ''T'')
      ''typescript''
   \<noteq> Some (generateTypeScript ''T''
        (inferTypeFromExamples [JObject [(''a'', JNumber 1)], JObject [(''b'', JNumber 2)]]))"
  by code_simp

text \<open>
  C1, amended.  \<^verbatim>\<open>generateAll\<close> takes one JSON value and a type name.  Its four entries
  \<^verbatim>\<open>jsonSchema\<close>, \<^verbatim>\<open>typescript\<close>, \<^verbatim>\<open>zod\<close>, \<^verbatim>\<open>apiDoc\<close> are the four renderers applied to one
  and the same node, the single-value inference of that value.  A list of examples handed
  to it is one JSON array: only its first element reaches the result, and nothing is merged.
\<close>

theorem C1_generateAll_single_inference:
  "generateAll json typeName =
     [(''jsonSchema'', generateJsonSchema typeName (inferType json)),
      (''typescript'', generateTypeScript typeName (inferType json)),
      (''zod'', ''import { z } from 'zod';'' @ nl @ nl @ generateZod typeName (inferType json)),
      (''apiDoc'', generateApiDoc typeName (inferType json))]
   \<and> generateAll (JArray (e # es)) typeName = generateAll (JArray [e]) typeName"
  by (simp add: generateAll_def Let_def)

section \<open>The object-merge algorithm\<close>

subsection \<open>Objects as lists of own properties\<close>

lemma map_of_obj_put: "map_of (obj_put ps k v) = (map_of ps)(k \<mapsto> v)"
  by (induction ps) (auto simp: fun_eq_iff)

lemma map_of_obj_set:
  "map_of (obj_set ps k v) = (if k = ''__proto__'' then map_of ps else (map_of ps)(k \<mapsto> v))"
  by (simp add: obj_set_def map_of_obj_put)

lemma set_obj_put: "set (obj_put ps k v) \<subseteq> insert (k, v) (set ps)"
  by (induction ps) (auto split: if_splits)

lemma set_obj_set: "set (obj_set ps k v) \<subseteq> insert (k, v) (set ps)"
  using set_obj_put[of ps k v] by (auto simp: obj_set_def)

lemma fst_set_obj_put: "fst ` set (obj_put ps k v) = insert k (fst ` set ps)"
  by (induction ps) (force split: if_splits)+

lemma fst_set_obj_set:
  "fst ` set (obj_set ps k v) = (if k = ''__proto__'' then fst ` set ps else insert k (fst ` set ps))"
  by (simp add: obj_set_def fst_set_obj_put)

lemma obj_put_fresh: "k \<notin> fst ` set ps \<Longrightarrow> obj_put ps k v = ps @ [(k, v)]"
  by (induction ps) auto

lemma map_of_guarded_fold:
  "map_of (foldl (\<lambda>mp p. if c p then obj_set mp p (g p) else mp) mp0 names) k =
     (if k \<in> set names \<and> c k \<and> k \<noteq> ''__proto__'' then Some (g k) else map_of mp0 k)"
  by (induction names arbitrary: mp0) (auto simp: map_of_obj_set)

lemma guarded_fold_values:
  "p \<in> set (foldl (\<lambda>mp p. if c p then obj_set mp p (g p) else mp) mp0 names) \<Longrightarrow>
   p \<in> set mp0 \<or> (\<exists>n\<in>set names. c n \<and> n \<noteq> ''__proto__'' \<and> p = (n, g n))"
proof (induction names arbitrary: mp0)
  case Nil
  then show ?case by simp
next
  case (Cons n names)
  let ?mp1 = "if c n then obj_set mp0 n (g n) else mp0"
  from Cons.prems have "p \<in> set (foldl (\<lambda>mp p. if c p then obj_set mp p (g p) else mp) ?mp1 names)"
    by (simp only: foldl_Cons)
  from Cons.IH[OF this] show ?case
  proof
    assume "p \<in> set ?mp1"
    then have "p \<in> set mp0 \<or> (c n \<and> n \<noteq> ''__proto__'' \<and> p = (n, g n))"
      using set_obj_set[of mp0 n "g n"] by (auto simp: obj_set_def split: if_splits)
    then show ?thesis by auto
  next
    assume "\<exists>n\<in>set names. c n \<and> n \<noteq> ''__proto__'' \<and> p = (n, g n)"
    then show ?thesis by auto
  qed
qed

lemma keys_guarded_fold:
  "fst ` set (foldl (\<lambda>mp p. if c p then obj_set mp p (g p) else mp) mp0 names)
     = fst ` set mp0 \<union> {p \<in> set names. c p \<and> p \<noteq> ''__proto__''}"
  by (induction names arbitrary: mp0) (auto simp: fst_set_obj_set)

lemma plain_fold_values:
  "p \<in> set (foldl (\<lambda>mp k. obj_set mp k (g k)) [] names) \<Longrightarrow>
   \<exists>n\<in>set names. n \<noteq> ''__proto__'' \<and> p = (n, g n)"
  using guarded_fold_values[of p "\<lambda>_. True" g "[]" names] by simp

lemma keys_plain_fold:
  "fst ` set (foldl (\<lambda>mp k. obj_set mp k (g k)) [] names) = {p \<in> set names. p \<noteq> ''__proto__''}"
  using keys_guarded_fold[of "\<lambda>_. True" g "[]" names] by simp

lemma fold_set_fresh:
  "distinct ks \<Longrightarrow> set ks \<inter> fst ` set mp0 = {} \<Longrightarrow> ''__proto__'' \<notin> set ks \<Longrightarrow>
   foldl (\<lambda>mp k. obj_set mp k (g k)) mp0 ks = mp0 @ map (\<lambda>k. (k, g k)) ks"
proof (induction ks arbitrary: mp0)
  case Nil
  then show ?case by simp
next
  case (Cons k ks)
  from Cons.prems have fresh: "k \<notin> fst ` set mp0" and "k \<noteq> ''__proto__''" by auto
  then have step: "obj_set mp0 k (g k) = mp0 @ [(k, g k)]"
    by (simp add: obj_set_def obj_put_fresh)
  from Cons.prems have "set ks \<inter> fst ` set (mp0 @ [(k, g k)]) = {}" by auto
  with Cons.prems Cons.IH[of "mp0 @ [(k, g k)]"] step show ?case by simp
qed

lemma foldl_set_add_distinct: "distinct ks \<Longrightarrow> set names \<inter> set ks = {} \<Longrightarrow>
    foldl set_add names ks = names @ ks"
  by (induction ks arbitrary: names) (auto simp: set_add_def)

lemma foldl_set_add_known: "set ks \<subseteq> set names \<Longrightarrow> foldl set_add names ks = names"
  by (induction ks arbitrary: names) (auto simp: set_add_def)

lemma length_map_filter: "length (List.map_filter f xs) = length (filter (\<lambda>x. f x \<noteq> None) xs)"
  by (induction xs) (auto split: option.splits)

lemma length_filter_eq_iff: "length (filter P xs) = length xs \<longleftrightarrow> (\<forall>x\<in>set xs. P x)"
proof (induction xs)
  case Nil
  then show ?case by simp
next
  case (Cons x xs)
  have le: "length (filter P xs) \<le> length xs"
    by (rule length_filter_le)
  show ?case
  proof (cases "P x")
    case True
    with Cons show ?thesis by simp
  next
    case False
    with le show ?thesis by (simp del: length_filter_le)
  qed
qed

lemma map_filter_empty_iff: "List.map_filter f xs = [] \<longleftrightarrow> (\<forall>x\<in>set xs. f x = None)"
  by (induction xs) (auto split: option.splits)

subsection \<open>The loop of the object merge\<close>

lemma mergeObjectTypeDefinitions_unfold:
  "mergeObjectTypeDefinitions types =
     (let (mergedProperties, requiredFields) =
            foldl (merge_step types) ([], []) (allPropertyNames types)
      in object_of mergedProperties requiredFields)"
  unfolding mergeObjectTypeDefinitions.simps merge_step_def[abs_def] by (rule refl)

lemma merge_step_eq:
  assumes "types \<noteq> []"
  shows "merge_step types (mp, rf) p =
           (if candidates types p \<noteq> [] then obj_set mp p (mergeTypes (candidates types p)) else mp,
            if in_every_node types p then rf @ [p] else rf)"
proof -
  have "in_every_node types p \<Longrightarrow> candidates types p \<noteq> []"
    using assms by (metis length_map_filter length_0_conv)
  then show ?thesis
    by (auto simp: merge_step_def Let_def)
qed

lemma mergeObject_fold:
  assumes "types \<noteq> []"
  shows "foldl (merge_step types) (mp, rf) names
       = (foldl (\<lambda>mp p. if candidates types p \<noteq> []
                          then obj_set mp p (mergeTypes (candidates types p))
                          else mp) mp names,
          rf @ filter (in_every_node types) names)"
  by (induction names arbitrary: mp rf) (simp_all add: merge_step_eq[OF assms] del: not_None_eq)

lemma mergeObjectTypeDefinitions_eq:
  "mergeObjectTypeDefinitions types = object_of (merged_properties types) (required_fields types)"
proof (cases "types = []")
  case True
  then show ?thesis
    by (simp add: mergeObjectTypeDefinitions_unfold merged_properties_def required_fields_def
          allPropertyNames_def)
next
  case False
  show ?thesis
    by (simp add: mergeObjectTypeDefinitions_unfold mergeObject_fold[OF False]
          merged_properties_def required_fields_def del: not_None_eq)
qed

lemma in_every_node_iff:
  "in_every_node types p \<longleftrightarrow> (\<forall>t\<in>set types. prop_of t p \<noteq> None)"
  by (rule length_filter_eq_iff)

lemma has_property_iff:
  "has_property t p \<longleftrightarrow> (\<exists>ps. properties t = Some ps \<and> p \<in> fst ` set ps)"
  by (simp add: has_property_def map_of_eq_None_iff split: option.splits)

lemma has_property_own: "has_property t p \<longleftrightarrow> own_property t p \<noteq> None"
  by (simp add: has_property_def own_property_def split: option.splits)

lemma mem_allPropertyNames: "p \<in> set (allPropertyNames types) \<longleftrightarrow> (\<exists>t\<in>set types. has_property t p)"
  by (simp add: set_allPropertyNames has_property_iff)

lemma prop_of_plain_name:
  "p \<notin> set object_prototype_keys \<Longrightarrow> prop_of t p = own_property t p"
  by (simp add: prop_of_def own_property_def obj_get_def split: option.splits)

lemma mergeTypes_cases:
  "mergeTypes (t0 # t1 # ts) =
     (if list_all (\<lambda>t. kind t = kind t0) (t0 # t1 # ts) then
        if kind t0 = Some TArray \<and> items t0 \<noteq> None
        then array_of (mergeTypes (List.map_filter items (t0 # t1 # ts)))
        else if kind t0 = Some TObject then mergeObjectTypeDefinitions (t0 # t1 # ts)
        else t0
      else prim TString)"
  by (simp only: mergeTypes.simps Let_def)

text \<open>
  For a name that is not a member of \<^verbatim>\<open>Object.prototype\<close>, the merge of a non-empty
  sequence of nodes (whose \<^verbatim>\<open>properties\<close> objects have the prototype that \<^verbatim>\<open>{}\<close> gives
  them) lists the name in \<^verbatim>\<open>required\<close> exactly when every node has the property, and
  gives a name that some node has the type-merge of the property over the nodes that have
  it, in their order.
\<close>

theorem merge_required_iff_in_all_nodes:
  assumes "p \<notin> set object_prototype_keys" "types \<noteq> []"
  shows "(p \<in> set (the (required (mergeObjectTypeDefinitions types)))
            \<longleftrightarrow> (\<forall>t\<in>set types. has_property t p))
       \<and> map_of (the (properties (mergeObjectTypeDefinitions types))) p =
           (if \<exists>t\<in>set types. has_property t p
            then Some (mergeTypes (List.map_filter (\<lambda>t. own_property t p) types))
            else None)"
proof -
  from assms(1) have eq: "\<And>t. prop_of t p = own_property t p"
    by (simp add: prop_of_plain_name)
  from assms(1) have np: "p \<noteq> ''__proto__''"
    by (auto simp: object_prototype_keys_def)
  have req: "p \<in> set (required_fields types) \<longleftrightarrow> (\<forall>t\<in>set types. has_property t p)"
    using assms(2)
    by (auto simp: required_fields_def in_every_node_iff mem_allPropertyNames eq
          has_property_own ex_in_conv simp del: not_None_eq)
  have props: "map_of (merged_properties types) p =
           (if \<exists>t\<in>set types. has_property t p
            then Some (mergeTypes (List.map_filter (\<lambda>t. own_property t p) types))
            else None)"
    unfolding merged_properties_def map_of_guarded_fold
    by (auto simp: mem_allPropertyNames map_filter_empty_iff np eq has_property_own
          simp del: not_None_eq)
  from req props show ?thesis
    by (simp add: mergeObjectTypeDefinitions_eq)
qed

subsection \<open>The invariant of the type model\<close>

lemma required_within_properties_simps [simp]:
  "required_within_properties (TypeDefinition None None None None None)"
  "required_within_properties (prim k)"
  "required_within_properties (array_of it) = required_within_properties it"
  "required_within_properties (object_of ps req) =
     (set req \<subseteq> fst ` set ps \<and> list_all (\<lambda>p. required_within_properties (snd p)) ps)"
  by (simp_all add: required_within_properties.simps[of "TypeDefinition _ _ _ _ _"])

lemma settable_keys_simps [simp]:
  "settable_keys (TypeDefinition None None None None None)"
  "settable_keys (prim k)"
  "settable_keys (array_of it) = settable_keys it"
  "settable_keys (object_of ps req) =
     (''__proto__'' \<notin> fst ` set ps \<and> list_all (\<lambda>p. settable_keys (snd p)) ps)"
  by (simp_all add: settable_keys.simps[of "TypeDefinition _ _ _ _ _"])

lemma inferType_settable: "settable_keys (inferType v)"
proof (induction v rule: inferType.induct)
  case (7 val)
  let ?g = "\<lambda>key. case map_of val key of Some v \<Rightarrow> inferType v | None \<Rightarrow> prim TString"
  let ?props = "foldl (\<lambda>props key. obj_set props key (?g key)) [] (own_keys val)"
  have child: "settable_keys (snd p)" if "p \<in> set ?props" for p
  proof -
    from plain_fold_values[OF that]
    obtain key where "key \<in> set (own_keys val)" "snd p = ?g key" by fastforce
    then show ?thesis using 7 by (auto split: option.splits)
  qed
  have "''__proto__'' \<notin> fst ` set ?props"
    by (simp add: keys_plain_fold)
  with child show ?case
    by (simp add: Let_def list_all_iff)
qed simp_all

lemma inferType_required_within_properties:
  "proto_free v \<Longrightarrow> required_within_properties (inferType v)"
proof (induction v rule: inferType.induct)
  case (7 val)
  let ?g = "\<lambda>key. case map_of val key of Some v \<Rightarrow> inferType v | None \<Rightarrow> prim TString"
  let ?props = "foldl (\<lambda>props key. obj_set props key (?g key)) [] (own_keys val)"
  from "7.prems" have np: "''__proto__'' \<notin> fst ` set val"
    and sub: "\<And>k v. (k, v) \<in> set val \<Longrightarrow> proto_free v"
    by (auto simp: list_all_iff)
  have child: "required_within_properties (snd p)" if "p \<in> set ?props" for p
  proof -
    from plain_fold_values[OF that]
    obtain key where key: "key \<in> set (own_keys val)" "snd p = ?g key" by fastforce
    show ?thesis
    proof (cases "map_of val key")
      case None
      with key show ?thesis by simp
    next
      case (Some v)
      then have "(key, v) \<in> set val" by (rule map_of_SomeD)
      with key Some "7.IH"[OF refl key(1) Some] sub show ?thesis by simp
    qed
  qed
  from np have "\<And>b. (''__proto__'', b) \<notin> set val"
    by force
  then have "fst ` set ?props = set (own_keys val)"
    by (auto simp: keys_plain_fold)
  with child show ?case
    by (simp add: Let_def list_all_iff)
qed simp_all

lemma node_ok_property:
  "node_ok t \<Longrightarrow> properties t = Some ps \<Longrightarrow> (k, c) \<in> set ps \<Longrightarrow> node_ok c"
  unfolding node_ok_def
  by (subst (asm) required_within_properties.simps, subst (asm) settable_keys.simps)
     (auto simp: list_all_iff)

lemma node_ok_items: "node_ok t \<Longrightarrow> items t = Some c \<Longrightarrow> node_ok c"
  unfolding node_ok_def
  by (subst (asm) required_within_properties.simps, subst (asm) settable_keys.simps) auto

lemma node_ok_no_proto:
  "node_ok t \<Longrightarrow> properties t = Some ps \<Longrightarrow> ''__proto__'' \<notin> fst ` set ps"
  unfolding node_ok_def
  by (subst (asm) settable_keys.simps) auto

lemma node_ok_simps [simp]:
  "node_ok inherited_member"
  "node_ok (prim k)"
  "node_ok (array_of it) = node_ok it"
  by (auto simp: node_ok_def inherited_member_def)

lemma candidates_ok:
  assumes "\<forall>t\<in>set types. node_ok t" "c \<in> set (candidates types p)"
  shows "node_ok c"
proof -
  from assms(2) obtain t where t: "t \<in> set types" "prop_of t p = Some c"
    by (auto simp: List.map_filter_def)
  show ?thesis
  proof (cases "own_property t p")
    case None
    with t(2) have "c = inherited_member"
      by (auto simp: prop_of_def own_property_def obj_get_def split: option.splits if_splits)
    then show ?thesis by simp
  next
    case (Some c')
    with t(2) obtain ps where "properties t = Some ps" "(p, c) \<in> set ps"
      by (auto simp: prop_of_def own_property_def obj_get_def
               split: option.splits dest: map_of_SomeD)
    with assms(1) t(1) show ?thesis by (blast intro: node_ok_property)
  qed
qed

lemma items_candidates_ok:
  assumes "\<forall>t\<in>set types. node_ok t" "c \<in> set (List.map_filter items types)"
  shows "node_ok c"
  using assms by (auto simp: List.map_filter_def intro: node_ok_items)

lemma merge_preserves_node_ok:
  "(\<forall>t\<in>set types. node_ok t) \<Longrightarrow> node_ok (mergeObjectTypeDefinitions types)"
  "(\<forall>t\<in>set types'. node_ok t) \<Longrightarrow> node_ok (mergeTypes types')"
proof (induction types and types' rule: mergeObjectTypeDefinitions_mergeTypes.induct)
  case (1 types)
  have ih: "node_ok (mergeTypes (candidates types p))"
    if "p \<in> set (allPropertyNames types)" "candidates types p \<noteq> []" for p
  proof -
    have ok: "\<forall>c\<in>set (candidates types p). node_ok c"
      using candidates_ok[OF "1.prems"] by blast
    show ?thesis
    proof (cases "in_every_node types p")
      case True
      from "1.IH"(1)[OF that(1) refl refl refl True ok] show ?thesis .
    next
      case False
      from that(2) have "0 < length (candidates types p)" by simp
      from "1.IH"(2)[OF that(1) refl refl refl False refl this ok] show ?thesis .
    qed
  qed
  have children: "node_ok (snd e)" if "e \<in> set (merged_properties types)" for e
    using guarded_fold_values[OF that[unfolded merged_properties_def]] ih by auto
  have keys: "fst ` set (merged_properties types)
                = {p \<in> set (allPropertyNames types). candidates types p \<noteq> [] \<and> p \<noteq> ''__proto__''}"
    by (simp add: merged_properties_def keys_guarded_fold)
  have req: "set (required_fields types) \<subseteq> fst ` set (merged_properties types)"
  proof
    fix p assume p: "p \<in> set (required_fields types)"
    then have names: "p \<in> set (allPropertyNames types)" and every: "in_every_node types p"
      by (simp_all add: required_fields_def)
    from names obtain t ps where t: "t \<in> set types" "properties t = Some ps" "p \<in> fst ` set ps"
      by (auto simp: set_allPropertyNames)
    with "1.prems" have "p \<noteq> ''__proto__''"
      using node_ok_no_proto by blast
    moreover from t(1) every have "candidates types p \<noteq> []"
      by (metis length_map_filter length_0_conv empty_iff list.set(1))
    ultimately show "p \<in> fst ` set (merged_properties types)"
      using names by (simp add: keys)
  qed
  from children req keys show ?case
    by (simp add: mergeObjectTypeDefinitions_eq node_ok_def list_all_iff)
next
  case 2
  then show ?case by simp
next
  case (3 t)
  then show ?case by simp
next
  case (4 t0 t1 ts)
  let ?types = "t0 # t1 # ts"
  show ?case
  proof (cases "list_all (\<lambda>t. kind t = kind t0) ?types")
    case False
    then have "mergeTypes ?types = prim TString"
      by (simp add: mergeTypes_cases del: list.pred_inject mergeTypes.simps)
    then show ?thesis by simp
  next
    case same: True
    show ?thesis
    proof (cases "kind t0 = Some TArray \<and> items t0 \<noteq> None")
      case True
      have "\<forall>c\<in>set (List.map_filter items ?types). node_ok c"
        using items_candidates_ok[OF "4.prems"] by blast
      from "4.IH"(1)[OF refl refl refl same True refl this]
      have "node_ok (mergeTypes (List.map_filter items ?types))" .
      moreover from same True
      have "mergeTypes ?types = array_of (mergeTypes (List.map_filter items ?types))"
        by (simp add: mergeTypes_cases del: list.pred_inject mergeTypes.simps)
      ultimately show ?thesis by simp
    next
      case notarr: False
      show ?thesis
      proof (cases "kind t0 = Some TObject")
        case True
        from "4.IH"(2)[OF refl refl refl same notarr True "4.prems"]
        have "node_ok (mergeObjectTypeDefinitions ?types)" .
        moreover from same notarr True
        have "mergeTypes ?types = mergeObjectTypeDefinitions ?types"
          by (simp add: mergeTypes_cases del: list.pred_inject mergeTypes.simps)
        ultimately show ?thesis by simp
      next
        case False
        with same notarr have "mergeTypes ?types = t0"
          by (auto simp add: mergeTypes_cases simp del: list.pred_inject mergeTypes.simps)
        with "4.prems" show ?thesis by simp
      qed
    qed
  qed
qed

lemma inferType_node_ok: "proto_free v \<Longrightarrow> node_ok (inferType v)"
  by (simp add: node_ok_def inferType_settable inferType_required_within_properties)

text \<open>
  For examples without a key \<^verbatim>\<open>__proto__\<close>, the inferred node and every node nested in it
  keep \<^verbatim>\<open>required\<close> within the keys of \<^verbatim>\<open>properties\<close>.
\<close>

theorem inference_keeps_required_within_properties:
  assumes "list_all proto_free examples"
  shows "required_within_properties (inferTypeFromExamples examples)"
proof -
  from assms have all: "\<forall>t\<in>set (map inferType examples). node_ok t"
    by (auto simp: list_all_iff inferType_node_ok)
  have "node_ok (inferTypeFromExamples examples)"
  proof (cases "find (\<lambda>t. kind t \<noteq> Some TNull) (map inferType examples)")
    case None
    with all show ?thesis
      by (auto simp: inferTypeFromExamples_def Let_def merge_preserves_node_ok(1)
            nth_Cons' list_all_iff)
  next
    case (Some t)
    then have "t \<in> set (map inferType examples)"
      by (auto simp: find_Some_iff)
    with all Some show ?thesis
      by (auto simp: inferTypeFromExamples_def Let_def merge_preserves_node_ok(1)
            nth_Cons' list_all_iff)
  qed
  then show ?thesis by (simp add: node_ok_def)
qed

subsection \<open>Array nodes and their items\<close>

lemma arrays_have_items_simps [simp]:
  "arrays_have_items (TypeDefinition None None None None None)"
  "arrays_have_items (prim k) = (k \<noteq> TArray)"
  "arrays_have_items (array_of it) = arrays_have_items it"
  "arrays_have_items (object_of ps req) = list_all (\<lambda>p. arrays_have_items (snd p)) ps"
  by (simp_all add: arrays_have_items.simps[of "TypeDefinition _ _ _ _ _"])

lemma arrays_have_items_inherited [simp]: "arrays_have_items inherited_member"
  by (simp add: inherited_member_def)

lemma arrays_have_items_property:
  "arrays_have_items t \<Longrightarrow> properties t = Some ps \<Longrightarrow> (k, c) \<in> set ps \<Longrightarrow> arrays_have_items c"
  by (subst (asm) arrays_have_items.simps) (auto simp: list_all_iff)

lemma arrays_have_items_items:
  "arrays_have_items t \<Longrightarrow> items t = Some c \<Longrightarrow> arrays_have_items c"
  by (subst (asm) arrays_have_items.simps) auto

lemma arrays_have_items_array:
  "arrays_have_items t \<Longrightarrow> kind t = Some TArray \<Longrightarrow> items t \<noteq> None"
  by (subst (asm) arrays_have_items.simps) auto

lemma inferType_arrays_have_items: "arrays_have_items (inferType v)"
proof (induction v rule: inferType.induct)
  case (7 val)
  let ?g = "\<lambda>key. case map_of val key of Some v \<Rightarrow> inferType v | None \<Rightarrow> prim TString"
  let ?props = "foldl (\<lambda>props key. obj_set props key (?g key)) [] (own_keys val)"
  have child: "arrays_have_items (snd p)" if "p \<in> set ?props" for p
  proof -
    from plain_fold_values[OF that]
    obtain key where "key \<in> set (own_keys val)" "snd p = ?g key" by fastforce
    then show ?thesis using 7 by (auto split: option.splits)
  qed
  then show ?case
    by (simp add: Let_def list_all_iff)
qed simp_all

lemma candidates_have_items:
  assumes "\<forall>t\<in>set types. arrays_have_items t" "c \<in> set (candidates types p)"
  shows "arrays_have_items c"
proof -
  from assms(2) obtain t where t: "t \<in> set types" "prop_of t p = Some c"
    by (auto simp: List.map_filter_def)
  show ?thesis
  proof (cases "own_property t p")
    case None
    with t(2) have "c = inherited_member"
      by (auto simp: prop_of_def own_property_def obj_get_def split: option.splits if_splits)
    then show ?thesis by simp
  next
    case (Some c')
    with t(2) obtain ps where "properties t = Some ps" "(p, c) \<in> set ps"
      by (auto simp: prop_of_def own_property_def obj_get_def
               split: option.splits dest: map_of_SomeD)
    with assms(1) t(1) show ?thesis by (blast intro: arrays_have_items_property)
  qed
qed

lemma items_candidates_have_items:
  assumes "\<forall>t\<in>set types. arrays_have_items t" "c \<in> set (List.map_filter items types)"
  shows "arrays_have_items c"
  using assms by (auto simp: List.map_filter_def intro: arrays_have_items_items)

lemma merge_preserves_arrays_have_items:
  "(\<forall>t\<in>set types. arrays_have_items t) \<Longrightarrow> arrays_have_items (mergeObjectTypeDefinitions types)"
  "(\<forall>t\<in>set types'. arrays_have_items t) \<Longrightarrow> arrays_have_items (mergeTypes types')"
proof (induction types and types' rule: mergeObjectTypeDefinitions_mergeTypes.induct)
  case (1 types)
  have ih: "arrays_have_items (mergeTypes (candidates types p))"
    if "p \<in> set (allPropertyNames types)" "candidates types p \<noteq> []" for p
  proof -
    have ok: "\<forall>c\<in>set (candidates types p). arrays_have_items c"
      using candidates_have_items[OF "1.prems"] by blast
    show ?thesis
    proof (cases "in_every_node types p")
      case True
      from "1.IH"(1)[OF that(1) refl refl refl True ok] show ?thesis .
    next
      case False
      from that(2) have "0 < length (candidates types p)" by simp
      from "1.IH"(2)[OF that(1) refl refl refl False refl this ok] show ?thesis .
    qed
  qed
  have children: "arrays_have_items (snd e)" if "e \<in> set (merged_properties types)" for e
    using guarded_fold_values[OF that[unfolded merged_properties_def]] ih by auto
  then show ?case
    by (simp add: mergeObjectTypeDefinitions_eq list_all_iff)
next
  case 2
  then show ?case by simp
next
  case (3 t)
  then show ?case by simp
next
  case (4 t0 t1 ts)
  let ?types = "t0 # t1 # ts"
  show ?case
  proof (cases "list_all (\<lambda>t. kind t = kind t0) ?types")
    case False
    then have "mergeTypes ?types = prim TString"
      by (simp add: mergeTypes_cases del: list.pred_inject mergeTypes.simps)
    then show ?thesis by simp
  next
    case same: True
    show ?thesis
    proof (cases "kind t0 = Some TArray \<and> items t0 \<noteq> None")
      case True
      have "\<forall>c\<in>set (List.map_filter items ?types). arrays_have_items c"
        using items_candidates_have_items[OF "4.prems"] by blast
      from "4.IH"(1)[OF refl refl refl same True refl this]
      have "arrays_have_items (mergeTypes (List.map_filter items ?types))" .
      moreover from same True
      have "mergeTypes ?types = array_of (mergeTypes (List.map_filter items ?types))"
        by (simp add: mergeTypes_cases del: list.pred_inject mergeTypes.simps)
      ultimately show ?thesis by simp
    next
      case notarr: False
      show ?thesis
      proof (cases "kind t0 = Some TObject")
        case True
        from "4.IH"(2)[OF refl refl refl same notarr True "4.prems"]
        have "arrays_have_items (mergeObjectTypeDefinitions ?types)" .
        moreover from same notarr True
        have "mergeTypes ?types = mergeObjectTypeDefinitions ?types"
          by (simp add: mergeTypes_cases del: list.pred_inject mergeTypes.simps)
        ultimately show ?thesis by simp
      next
        case False
        with same notarr have "mergeTypes ?types = t0"
          by (auto simp add: mergeTypes_cases simp del: list.pred_inject mergeTypes.simps)
        with "4.prems" show ?thesis by simp
      qed
    qed
  qed
qed

lemma inferTypeFromExamples_arrays_have_items:
  "arrays_have_items (inferTypeFromExamples examples)"
proof -
  have all: "\<forall>t\<in>set (map inferType examples). arrays_have_items t"
    by (simp add: inferType_arrays_have_items)
  show ?thesis
  proof (cases "find (\<lambda>t. kind t \<noteq> Some TNull) (map inferType examples)")
    case None
    with all show ?thesis
      by (auto simp: inferTypeFromExamples_def Let_def merge_preserves_arrays_have_items(1)
            inferType_arrays_have_items nth_Cons' list_all_iff)
  next
    case (Some t)
    then have "t \<in> set (map inferType examples)"
      by (auto simp: find_Some_iff)
    with all Some show ?thesis
      by (auto simp: inferTypeFromExamples_def Let_def merge_preserves_arrays_have_items(1)
            inferType_arrays_have_items nth_Cons' list_all_iff)
  qed
qed

lemma array_items_example:
  "inferTypeFromExamples [JObject [(''a'', JArray [JNumber 1])],
                          JObject [(''a'', JArray [JString ''x''])]]
     = object_of [(''a'', array_of (prim TString))] [''a'']"
  by code_simp

text \<open>
  C4.  \<^verbatim>\<open>mergeTypes\<close> is private to its module: its candidates are nodes that \<^verbatim>\<open>inferType\<close>
  built, properties or \<^verbatim>\<open>items\<close> of such nodes, and results of the two merges.  In all of
  them a node of kind array has \<^verbatim>\<open>items\<close>, as the data model asks: \<^verbatim>\<open>inferType\<close> builds only
  such nodes, both merges keep the property, and so does \<^verbatim>\<open>inferTypeFromExamples\<close>.  Two or
  more such candidates, all of kind array, at least one of which has \<^verbatim>\<open>items\<close>, merge to
  the array node whose \<^verbatim>\<open>items\<close> is the type-merge of the \<^verbatim>\<open>items\<close> of all the candidates that
  have one.  The examples \<^verbatim>\<open>{a:[1]}\<close> and \<^verbatim>\<open>{a:["x"]}\<close> reach this branch and give property \<^verbatim>\<open>a\<close>
  an array of strings.
\<close>

theorem C4_array_items_merge:
  "(2 \<le> length types \<and> list_all (\<lambda>t. kind t = Some TArray) types
      \<and> list_ex (\<lambda>t. items t \<noteq> None) types \<and> list_all arrays_have_items types
      \<longrightarrow> mergeTypes types = array_of (mergeTypes (List.map_filter items types)))
   \<and> arrays_have_items (inferType v)
   \<and> (list_all arrays_have_items ts
      \<longrightarrow> arrays_have_items (mergeTypes ts) \<and> arrays_have_items (mergeObjectTypeDefinitions ts))
   \<and> arrays_have_items (inferTypeFromExamples examples)
   \<and> inferTypeFromExamples [JObject [(''a'', JArray [JNumber 1])],
                            JObject [(''a'', JArray [JString ''x''])]]
       = object_of [(''a'', array_of (prim TString))] [''a'']"
proof -
  have merge: "mergeTypes types = array_of (mergeTypes (List.map_filter items types))"
    if len: "2 \<le> length types" and arr: "list_all (\<lambda>t. kind t = Some TArray) types"
      and ok: "list_all arrays_have_items types"
  proof -
    from len have "hd types \<in> set types" by (cases types) auto
    with arr ok have "arrays_have_items (hd types)" "kind (hd types) = Some TArray"
      by (simp_all add: list_all_iff)
    then have "items (hd types) \<noteq> None"
      by (rule arrays_have_items_array)
    with len arr show ?thesis
      by (intro mergeTypes_array_first_items) (simp_all add: list_all_iff del: not_None_eq)
  qed
  have keep: "arrays_have_items (mergeTypes ts) \<and> arrays_have_items (mergeObjectTypeDefinitions ts)"
    if "list_all arrays_have_items ts"
    using that merge_preserves_arrays_have_items[of ts] merge_preserves_arrays_have_items(2)[of ts]
    by (simp add: list_all_iff)
  from merge keep show ?thesis
    by (simp add: inferType_arrays_have_items inferTypeFromExamples_arrays_have_items
          array_items_example)
qed

theorem C4_array_items_merge_witness:
  "2 \<le> length [array_of (prim TNumber), array_of (prim TString)]
   \<and> list_all (\<lambda>t. kind t = Some TArray) [array_of (prim TNumber), array_of (prim TString)]
   \<and> list_ex (\<lambda>t. items t \<noteq> None) [array_of (prim TNumber), array_of (prim TString)]
   \<and> list_all arrays_have_items [array_of (prim TNumber), array_of (prim TString)]
   \<and> mergeTypes [array_of (prim TNumber), array_of (prim TString)]
       = array_of (mergeTypes (List.map_filter items
           [array_of (prim TNumber), array_of (prim TString)]))
   \<and> mergeTypes [array_of (prim TNumber), array_of (prim TString)] = array_of (prim TString)
   \<and> arrays_have_items (mergeTypes [array_of (prim TNumber), array_of (prim TString)])
   \<and> arrays_have_items
        (mergeObjectTypeDefinitions [array_of (prim TNumber), array_of (prim TString)])"
proof -
  have h: "2 \<le> length [array_of (prim TNumber), array_of (prim TString)]
      \<and> list_all (\<lambda>t. kind t = Some TArray) [array_of (prim TNumber), array_of (prim TString)]
      \<and> list_ex (\<lambda>t. items t \<noteq> None) [array_of (prim TNumber), array_of (prim TString)]
      \<and> list_all arrays_have_items [array_of (prim TNumber), array_of (prim TString)]"
    by simp
  have ok: "list_all arrays_have_items [array_of (prim TNumber), array_of (prim TString)]"
    by simp
  have val: "mergeTypes [array_of (prim TNumber), array_of (prim TString)] = array_of (prim TString)"
    by code_simp
  note th = C4_array_items_merge[of "[array_of (prim TNumber), array_of (prim TString)]" JNull
              "[array_of (prim TNumber), array_of (prim TString)]" "[]"]
  note eq = th[THEN conjunct1, THEN mp, OF h]
  note keep = th[THEN conjunct2, THEN conjunct2, THEN conjunct1, THEN mp, OF ok]
  show ?thesis
    apply (intro conjI)
    apply (rule h[THEN conjunct1])
    apply (rule h[THEN conjunct2, THEN conjunct1])
    apply (rule h[THEN conjunct2, THEN conjunct2, THEN conjunct1])
    apply (rule ok)
    apply (rule eq)
    apply (rule val)
    apply (rule keep[THEN conjunct1])
    apply (rule keep[THEN conjunct2])
    done
qed


subsection \<open>The same example twice\<close>

lemma insort_key_map:
  "insort_key f (h x) (map h xs) = map h (insort_key (\<lambda>a. f (h a)) x xs)"
  by (induction xs) auto

lemma sort_key_map: "sort_key f (map h xs) = map h (sort_key (\<lambda>a. f (h a)) xs)"
  by (induction xs) (auto simp: insort_key_map)

lemma own_keys_key_order: "own_keys ps = key_order (map fst ps)"
  by (simp add: own_keys_def own_entries_def key_order_def sort_key_map filter_map comp_def)

lemma key_order_idem: "key_order (key_order ks) = key_order ks"
proof -
  let ?A = "sort_key index_value (filter is_array_index ks)"
  let ?B = "filter (\<lambda>k. \<not> is_array_index k) ks"
  have a1: "filter is_array_index ?A = ?A" by (auto intro: filter_True)
  have a2: "filter (\<lambda>k. \<not> is_array_index k) ?A = []" by (auto simp: filter_empty_conv)
  have b1: "filter is_array_index ?B = []" by (auto simp: filter_empty_conv)
  have s: "sort_key index_value ?A = ?A"
    by (rule sort_key_id_if_sorted) (rule sorted_sort_key)
  show ?thesis
    by (simp add: key_order_def a1 a2 b1 s del: filter_filter)
qed

lemma set_key_order [simp]: "set (key_order ks) = set ks"
  by (auto simp: key_order_def)

lemma distinct_key_order: "distinct ks \<Longrightarrow> distinct (key_order ks)"
  by (auto simp: key_order_def)

lemma own_keys_keyed: "own_keys (map (\<lambda>k. (k, g k)) ks) = key_order ks"
  by (simp add: own_keys_key_order comp_def)

lemma map_of_keyed: "k \<in> set ks \<Longrightarrow> map_of (map (\<lambda>k. (k, g k)) ks) k = Some (g k)"
  by (induction ks) auto

lemma mergeTypes_pair_prim: "k \<noteq> TObject \<Longrightarrow> mergeTypes [prim k, prim k] = prim k"
  by (simp add: Let_def)

lemma mergeTypes_pair_array:
  "mergeTypes [array_of it, array_of it] = array_of (mergeTypes [it, it])"
  by (simp add: Let_def)

lemma mergeTypes_pair_object:
  "mergeTypes [object_of ps req, object_of ps req]
     = mergeObjectTypeDefinitions [object_of ps req, object_of ps req]"
  by (simp add: Let_def)

lemma merge_same_object:
  assumes d: "distinct ks" and np: "''__proto__'' \<notin> set ks" and ko: "key_order ks = ks"
      and ih: "\<And>k. k \<in> set ks \<Longrightarrow> mergeTypes [g k, g k] = g k"
  shows "mergeObjectTypeDefinitions
           [object_of (map (\<lambda>k. (k, g k)) ks) ks, object_of (map (\<lambda>k. (k, g k)) ks) ks]
         = object_of (map (\<lambda>k. (k, g k)) ks) ks"
proof -
  let ?ps = "map (\<lambda>k. (k, g k)) ks"
  let ?T = "object_of ?ps ks"
  have names: "allPropertyNames [?T, ?T] = ks"
    using d by (simp add: allPropertyNames_def own_keys_keyed ko
                  foldl_set_add_distinct foldl_set_add_known)
  have rd: "prop_of ?T k = Some (g k)" if "k \<in> set ks" for k
    using that by (simp add: prop_of_def obj_get_def map_of_keyed)
  have cands: "candidates [?T, ?T] k = [g k, g k]" if "k \<in> set ks" for k
    using rd[OF that] by simp
  have req: "required_fields [?T, ?T] = ks"
    unfolding required_fields_def names
    by (rule filter_True) (simp add: rd)
  have "merged_properties [?T, ?T] = foldl (\<lambda>mp k. obj_set mp k (g k)) [] ks"
    unfolding merged_properties_def names
    by (rule foldl_cong) (simp_all add: cands ih del: List.map_filter_simps mergeTypes.simps)
  also have "\<dots> = ?ps"
    using fold_set_fresh[OF d _ np, of "[]" g] by simp
  finally show ?thesis
    by (simp add: mergeObjectTypeDefinitions_eq req)
qed

lemma inferType_object:
  assumes "distinct (map fst val)" "''__proto__'' \<notin> fst ` set val"
  shows "inferType (JObject val) =
           object_of (map (\<lambda>k. (k, case map_of val k of Some v \<Rightarrow> inferType v
                                      | None \<Rightarrow> prim TString)) (own_keys val))
             (own_keys val)"
proof -
  have "distinct (own_keys val)"
    using assms(1) by (simp add: own_keys_key_order distinct_key_order)
  moreover have "''__proto__'' \<notin> set (own_keys val)"
    using assms(2) by simp
  ultimately show ?thesis
    using fold_set_fresh[of "own_keys val" "[]"] by (simp add: Let_def)
qed

lemma merge_same_inferred:
  "wf_json v \<Longrightarrow> proto_free v \<Longrightarrow> mergeTypes [inferType v, inferType v] = inferType v"
proof (induction v rule: inferType.induct)
  case (6 firstItem rest)
  then show ?case by (simp add: mergeTypes_pair_array del: mergeTypes.simps)
next
  case (7 val)
  let ?g = "\<lambda>k. case map_of val k of Some v \<Rightarrow> inferType v | None \<Rightarrow> prim TString"
  from "7.prems" have d: "distinct (map fst val)" and np: "''__proto__'' \<notin> fst ` set val"
    and sub: "\<And>k v. (k, v) \<in> set val \<Longrightarrow> wf_json v \<and> proto_free v"
    by (auto simp: list_all_iff)
  have T: "inferType (JObject val) = object_of (map (\<lambda>k. (k, ?g k)) (own_keys val)) (own_keys val)"
    by (rule inferType_object[OF d np])
  have ih: "mergeTypes [?g k, ?g k] = ?g k" if "k \<in> set (own_keys val)" for k
  proof (cases "map_of val k")
    case None
    then show ?thesis by (simp add: mergeTypes_pair_prim del: mergeTypes.simps)
  next
    case (Some v)
    then have "(k, v) \<in> set val" by (rule map_of_SomeD)
    with sub "7.IH"[OF refl that Some] Some show ?thesis by simp
  qed
  have "mergeObjectTypeDefinitions [inferType (JObject val), inferType (JObject val)]
          = inferType (JObject val)"
    unfolding T
  proof (rule merge_same_object)
    show "distinct (own_keys val)"
      using d by (simp add: own_keys_key_order distinct_key_order)
    show "''__proto__'' \<notin> set (own_keys val)" using np by simp
    show "key_order (own_keys val) = own_keys val"
      by (simp add: own_keys_key_order key_order_idem)
  qed (rule ih)
  then show ?case
    unfolding T by (simp only: mergeTypes_pair_object)
qed (simp_all add: Let_def)

lemma inferType_null: "kind (inferType v) = Some TNull \<Longrightarrow> inferType v = prim TNull"
  by (cases v rule: inferType.cases) (simp_all add: Let_def)

text \<open>
  For an example without a key \<^verbatim>\<open>__proto__\<close>, inference from the example given twice is
  its single-value inference.
\<close>

theorem same_example_twice:
  assumes "wf_json v" "proto_free v"
  shows "inferTypeFromExamples [v, v] = inferType v"
proof (cases "kind (inferType v) = Some TObject")
  case True
  then obtain ps req where T: "inferType v = object_of ps req"
    by (cases v rule: inferType.cases) (simp_all add: Let_def)
  from merge_same_inferred[OF assms] have "mergeObjectTypeDefinitions [inferType v, inferType v] = inferType v"
    unfolding T by (simp only: mergeTypes_pair_object)
  with True show ?thesis
    by (simp add: inferTypeFromExamples_def Let_def)
next
  case False
  then show ?thesis
    by (auto simp: inferTypeFromExamples_def Let_def inferType_null)
qed

section \<open>Object keys that meet \<open>Object.prototype\<close>\<close>

lemma required_optional_partition_example:
  "inferTypeFromExamples
      [JObject [(''a'', JNumber 1), (''b'', JNumber 2)], JObject [(''a'', JNumber 1)]]
     = object_of [(''a'', prim TNumber), (''b'', prim TNumber)] [''a'']"
  by code_simp

text \<open>
  C2 at the examples \<^verbatim>\<open>{"toString":1}\<close> and \<^verbatim>\<open>{"a":1}\<close>.  The name \<^verbatim>\<open>toString\<close> is a
  property of the first node only, but the read \<^verbatim>\<open>t.properties?.["toString"]\<close> is truthy in
  the second node as well (the inherited function), so the merge counts it in both nodes,
  lists it in \<^verbatim>\<open>required\<close>, and merges its type over a candidate that is no type definition.
\<close>

theorem C2_inherited_name_counted_in_every_node:
  "inferTypeFromExamples [JObject [(''toString'', JNumber 1)], JObject [(''a'', JNumber 1)]]
     = object_of [(''toString'', prim TString), (''a'', prim TNumber)] [''toString'']
   \<and> \<not> has_property (inferType (JObject [(''a'', JNumber 1)])) ''toString''"
  by code_simp

text \<open>
  C7 at the example \<^verbatim>\<open>{"__proto__":1}\<close> given twice: the merge has an empty \<^verbatim>\<open>required\<close>
  list, the single-value inference lists \<^verbatim>\<open>__proto__\<close>.
\<close>

theorem C7_proto_key_not_idempotent:
  "inferTypeFromExamples [JObject [(''__proto__'', JNumber 1)], JObject [(''__proto__'', JNumber 1)]]
     = object_of [] []
   \<and> inferType (JObject [(''__proto__'', JNumber 1)]) = object_of [] [''__proto__'']"
  by code_simp

text \<open>
  C9 at the example \<^verbatim>\<open>{"__proto__":1}\<close>: the inferred node lists \<^verbatim>\<open>__proto__\<close> in
  \<^verbatim>\<open>required\<close> and has no property of that name.
\<close>

theorem C9_proto_key_required_without_property:
  "inferType (JObject [(''__proto__'', JNumber 1)]) = object_of [] [''__proto__'']
   \<and> \<not> required_within_properties (inferType (JObject [(''__proto__'', JNumber 1)]))"
  by code_simp

end
